theory Spec2Isabelle
  imports Main "HOL-Library.Word"
begin

unbundle bit_operations_syntax

section \<open>Transaction ids and row system attributes\<close>

text \<open>
  The store in \<^verbatim>\<open>gstore_fdw.c\<close> keeps, for every row, a system attribute
  \<^verbatim>\<open>GstoreFdwSysattr\<close> with the fields \<^verbatim>\<open>xmin\<close>, \<^verbatim>\<open>xmax\<close> and \<^verbatim>\<open>cid\<close>
  (printed with \<^verbatim>\<open>%u\<close> by \<^verbatim>\<open>pgstrom_gstore_fdw_sysattr_out\<close>, hence 32-bit
  unsigned).  A name that starts with two underscores in the source is written here
  with the prefix \<^verbatim>\<open>uu_\<close>.
\<close>

type_synonym TransactionId = "32 word"
type_synonym CommandId = "32 word"
type_synonym cl_uint = "32 word"
type_synonym cl_ulong = "64 word"

definition InvalidTransactionId :: TransactionId where
  "InvalidTransactionId = 0"

definition FrozenTransactionId :: TransactionId where
  "FrozenTransactionId = 2"

definition FirstNormalTransactionId :: TransactionId where
  "FirstNormalTransactionId = 3"

definition UINT_MAX :: cl_uint where
  "UINT_MAX = - 1"

record GstoreFdwSysattr =
  xmin :: TransactionId
  xmax :: TransactionId
  cid :: CommandId

text \<open>
  The transaction manager of the host database is consulted through three predicates;
  they are inputs of the model.
\<close>

record xact_status =
  TransactionIdIsCurrentTransactionId :: "TransactionId \<Rightarrow> bool"
  TransactionIdDidCommit :: "TransactionId \<Rightarrow> bool"
  TransactionIdIsInProgress :: "TransactionId \<Rightarrow> bool"

text \<open>
  \<^verbatim>\<open>TransactionIdPrecedes\<close> of the host database: plain unsigned comparison when
  one of the ids is a permanent one (below \<^verbatim>\<open>FirstNormalTransactionId\<close>),
  comparison modulo \<open>2\<^sup>3\<^sup>2\<close> otherwise.
\<close>

definition TransactionIdIsNormal :: "TransactionId \<Rightarrow> bool" where
  "TransactionIdIsNormal xid = (FirstNormalTransactionId \<le> xid)"

definition TransactionIdPrecedes :: "TransactionId \<Rightarrow> TransactionId \<Rightarrow> bool" where
  "TransactionIdPrecedes id1 id2 =
     (if TransactionIdIsNormal id1 \<and> TransactionIdIsNormal id2 then sint (id1 - id2) < 0
      else id1 < id2)"

text \<open>
  The snapshot of the host database.  \<^verbatim>\<open>gstore_fdw.c\<close> reads only \<^verbatim>\<open>curcid\<close>;
  the other fields say which transactions were still running when the snapshot was
  taken (\<^verbatim>\<open>XidInMVCCSnapshot\<close>).
\<close>

record SnapshotData =
  snap_xmin :: TransactionId
  snap_xmax :: TransactionId
  snap_xip :: "TransactionId list"
  curcid :: CommandId

definition XidInMVCCSnapshot :: "TransactionId \<Rightarrow> SnapshotData \<Rightarrow> bool" where
  "XidInMVCCSnapshot xid snap =
     (if TransactionIdPrecedes xid (snap_xmin snap) then False
      else if \<not> TransactionIdPrecedes xid (snap_xmax snap) then True
      else xid \<in> set (snap_xip snap))"

section \<open>Visibility checks\<close>

text \<open>
  \<^verbatim>\<open>__gstoreCheckVisibilityForRead\<close>.  The function writes resolved states back
  into the row's system attribute, so the model returns the attribute as well.
  \<open>read_xmax_part\<close> is the second half of the function, reached once the inserting
  transaction counts as committed.
\<close>

definition read_xmax_part ::
  "xact_status \<Rightarrow> GstoreFdwSysattr \<Rightarrow> CommandId \<Rightarrow> bool \<times> GstoreFdwSysattr" where
  "read_xmax_part xs sysattr curr_cid =
     (if xmax sysattr = InvalidTransactionId then (True, sysattr)
      else if xmax sysattr \<noteq> FrozenTransactionId then
        (if TransactionIdIsCurrentTransactionId xs (xmax sysattr) then
           (if curr_cid \<le> cid sysattr then (True, sysattr) else (False, sysattr))
         else if TransactionIdIsInProgress xs (xmax sysattr) then (True, sysattr)
         else if TransactionIdDidCommit xs (xmax sysattr) then
           (False, sysattr\<lparr>xmax := FrozenTransactionId\<rparr>)
         else (False, sysattr\<lparr>xmax := InvalidTransactionId\<rparr>))
      else (False, sysattr))"

definition uu_gstoreCheckVisibilityForRead ::
  "xact_status \<Rightarrow> GstoreFdwSysattr \<Rightarrow> CommandId \<Rightarrow> bool \<times> GstoreFdwSysattr" where
  "uu_gstoreCheckVisibilityForRead xs sysattr curr_cid =
     (if xmin sysattr \<noteq> FrozenTransactionId then
        (if TransactionIdIsCurrentTransactionId xs (xmin sysattr) then
           (if curr_cid \<le> cid sysattr then (False, sysattr)
            else if xmax sysattr = InvalidTransactionId then (True, sysattr)
            else if xmax sysattr = FrozenTransactionId then (False, sysattr)
            else if \<not> TransactionIdIsCurrentTransactionId xs (xmax sysattr)
              then (True, sysattr)
            else read_xmax_part xs sysattr curr_cid)
         else if TransactionIdDidCommit xs (xmin sysattr) then
           read_xmax_part xs (sysattr\<lparr>xmin := FrozenTransactionId\<rparr>) curr_cid
         else if TransactionIdIsInProgress xs (xmin sysattr) then (False, sysattr)
         else (False, sysattr\<lparr>xmin := InvalidTransactionId\<rparr>))
      else read_xmax_part xs sysattr curr_cid)"

text \<open>
  \<^verbatim>\<open>gstoreCheckVisibilityForRead\<close> fetches the system attribute of \<open>rowid\<close>
  from the store and passes \<^verbatim>\<open>snapshot->curcid\<close>; nothing else of the snapshot is
  read.  The store is represented here by its column of system attributes; the
  result holds the verdict, the updated column and the copy handed to the caller.
\<close>

definition gstoreCheckVisibilityForRead ::
  "xact_status \<Rightarrow> (nat \<Rightarrow> GstoreFdwSysattr) \<Rightarrow> cl_uint \<Rightarrow> SnapshotData
     \<Rightarrow> bool \<times> (nat \<Rightarrow> GstoreFdwSysattr) \<times> GstoreFdwSysattr" where
  "gstoreCheckVisibilityForRead xs sysattrs rowid snapshot =
     (case uu_gstoreCheckVisibilityForRead xs (sysattrs (unat rowid)) (curcid snapshot) of
        (retval, sysattr') \<Rightarrow> (retval, sysattrs(unat rowid := sysattr'), sysattr'))"

text \<open>
  \<^verbatim>\<open>gstoreCheckVisibilityForWrite\<close>, on the system attribute of the row.
  \<open>write_horizon_part\<close> is the final comparison against \<^verbatim>\<open>oldestXmin\<close>,
  \<open>write_xmax_part\<close> the part after \<^verbatim>\<open>/* Ok, the INSERT is committed */\<close>.
\<close>

definition write_horizon_part ::
  "GstoreFdwSysattr \<Rightarrow> TransactionId \<Rightarrow> bool \<times> GstoreFdwSysattr" where
  "write_horizon_part sysattr oldestXmin =
     (if \<not> TransactionIdPrecedes (xmax sysattr) oldestXmin then (False, sysattr)
      else (True, sysattr))"

definition write_xmax_part ::
  "xact_status \<Rightarrow> GstoreFdwSysattr \<Rightarrow> TransactionId \<Rightarrow> bool \<times> GstoreFdwSysattr" where
  "write_xmax_part xs sysattr oldestXmin =
     (if xmax sysattr = InvalidTransactionId then (False, sysattr)
      else if xmax sysattr \<noteq> FrozenTransactionId then
        (if TransactionIdIsInProgress xs (xmax sysattr) then (False, sysattr)
         else if TransactionIdDidCommit xs (xmax sysattr) then
           write_horizon_part (sysattr\<lparr>xmax := InvalidTransactionId\<rparr>) oldestXmin
         else (False, sysattr\<lparr>xmax := InvalidTransactionId\<rparr>))
      else write_horizon_part sysattr oldestXmin)"

definition gstoreCheckVisibilityForWrite ::
  "xact_status \<Rightarrow> GstoreFdwSysattr \<Rightarrow> TransactionId \<Rightarrow> bool \<times> GstoreFdwSysattr" where
  "gstoreCheckVisibilityForWrite xs sysattr oldestXmin =
     (if xmin sysattr \<noteq> FrozenTransactionId then
        (if xmin sysattr = InvalidTransactionId then (True, sysattr)
         else if TransactionIdIsCurrentTransactionId xs (xmin sysattr) then (False, sysattr)
         else if TransactionIdIsInProgress xs (xmin sysattr) then (False, sysattr)
         else if TransactionIdDidCommit xs (xmin sysattr) then
           write_xmax_part xs (sysattr\<lparr>xmin := FrozenTransactionId\<rparr>) oldestXmin
         else (True, sysattr\<lparr>xmin := InvalidTransactionId\<rparr>))
      else write_xmax_part xs sysattr oldestXmin)"

section \<open>Primary-key hash index\<close>

text \<open>
  \<^verbatim>\<open>GpuStoreHashIndexHead\<close>: the slot array \<^verbatim>\<open>slots[nslots]\<close> is followed by
  one "next" entry per row, \<^verbatim>\<open>rowmap = &slots[nslots]\<close>.  The flexible array is a
  function from indices to 32-bit entries.
\<close>

record GpuStoreHashIndexHead =
  hi_nrooms :: "64 word"
  hi_nslots :: "64 word"
  hi_slots :: "nat \<Rightarrow> cl_uint"

definition rowmap :: "GpuStoreHashIndexHead \<Rightarrow> nat \<Rightarrow> cl_uint" where
  "rowmap hash_index i = hi_slots hash_index (unat (hi_nslots hash_index) + i)"

text \<open>
  The key column is read with \<^verbatim>\<open>KDS_fetch_datum_column\<close> and compared with the
  equality operator of the key's type; neither is part of \<^verbatim>\<open>gstore_fdw.c\<close>, so the
  column (\<open>fetch\<close>: value and null flag of a row) and the operator (\<open>eq\<close>) are inputs.
\<close>

definition key_matches ::
  "(nat \<Rightarrow> 'd \<times> bool) \<Rightarrow> ('d \<Rightarrow> 'd \<Rightarrow> bool) \<Rightarrow> 'd \<Rightarrow> cl_uint \<Rightarrow> bool" where
  "key_matches fetch eq key_value rowid =
     (case fetch (unat rowid) of (datum, isnull) \<Rightarrow> \<not> isnull \<and> eq key_value datum)"

text \<open>
  The chain walk of \<^verbatim>\<open>lookupGpuStorePrimaryKey\<close>:
  \<^verbatim>\<open>while (rowid != UINT_MAX) { ... rowid = rowmap[rowid]; }\<close>.
  A chain may be cyclic, so the walk takes fuel: one unit per pointer followed, and
  \<open>None\<close> when it runs out.  The second component lists the rows whose key column
  and "next" entry the walk has read.
\<close>

fun chain_walk ::
  "nat \<Rightarrow> GpuStoreHashIndexHead \<Rightarrow> (nat \<Rightarrow> 'd \<times> bool) \<Rightarrow> ('d \<Rightarrow> 'd \<Rightarrow> bool) \<Rightarrow> 'd
     \<Rightarrow> cl_uint \<Rightarrow> nat list \<Rightarrow> cl_uint option \<times> nat list" where
  "chain_walk 0 hash_index fetch eq key_value rowid reads =
     (if rowid = UINT_MAX then (Some rowid, reads)
      else if hi_nrooms hash_index \<le> ucast rowid then (Some UINT_MAX, reads)
      else if key_matches fetch eq key_value rowid then (Some rowid, reads @ [unat rowid])
      else (None, reads @ [unat rowid]))"
| "chain_walk (Suc fuel) hash_index fetch eq key_value rowid reads =
     (if rowid = UINT_MAX then (Some rowid, reads)
      else if hi_nrooms hash_index \<le> ucast rowid then (Some UINT_MAX, reads)
      else if key_matches fetch eq key_value rowid then (Some rowid, reads @ [unat rowid])
      else chain_walk fuel hash_index fetch eq key_value
             (rowmap hash_index (unat rowid)) (reads @ [unat rowid]))"

text \<open>
  The statement after the walk, \<^verbatim>\<open>while (rowid != UINT_MAX);\<close>, has an empty body:
  it is passed at once when the walk ended with \<^verbatim>\<open>UINT_MAX\<close> and never otherwise.
\<close>

definition trailing_while :: "cl_uint \<Rightarrow> cl_uint option" where
  "trailing_while rowid = (if rowid \<noteq> UINT_MAX then None else Some rowid)"

text \<open>
  \<^verbatim>\<open>lookupGpuStorePrimaryKey\<close>.  \<open>None\<close>: the call does not return (the walk did
  not end within the fuel, the trailing loop spins, or \<^verbatim>\<open>hash % nslots\<close> divides by
  zero).  \<open>hash\<close> is the hash function of the key's type.
\<close>

definition lookup_start :: "GpuStoreHashIndexHead \<Rightarrow> 64 word \<Rightarrow> cl_uint \<Rightarrow> cl_uint" where
  "lookup_start hash_index hash last_rowid =
     (if last_rowid = UINT_MAX then
        hi_slots hash_index (unat (hash mod hi_nslots hash_index))
      else if ucast last_rowid < hi_nrooms hash_index then
        rowmap hash_index (unat last_rowid)
      else UINT_MAX)"

definition lookupGpuStorePrimaryKey ::
  "nat \<Rightarrow> GpuStoreHashIndexHead \<Rightarrow> (nat \<Rightarrow> 'd \<times> bool) \<Rightarrow> ('d \<Rightarrow> 'd \<Rightarrow> bool)
     \<Rightarrow> ('d \<Rightarrow> 64 word) \<Rightarrow> 'd \<Rightarrow> cl_uint \<Rightarrow> cl_uint option \<times> nat list" where
  "lookupGpuStorePrimaryKey fuel hash_index fetch eq hash key_value last_rowid =
     (if hi_nslots hash_index = 0 then (None, [])
      else
        (case chain_walk fuel hash_index fetch eq key_value
                (lookup_start hash_index (hash key_value) last_rowid) [] of
           (None, reads) \<Rightarrow> (None, reads)
         | (Some rowid, reads) \<Rightarrow> (trailing_while rowid, reads)))"

text \<open>
  The pointer the walk holds after following \<open>n\<close> chain entries from \<open>rowid\<close>
  (\<open>None\<close> when the walk has ended before).
\<close>

fun pointer_after ::
  "nat \<Rightarrow> GpuStoreHashIndexHead \<Rightarrow> (nat \<Rightarrow> 'd \<times> bool) \<Rightarrow> ('d \<Rightarrow> 'd \<Rightarrow> bool) \<Rightarrow> 'd
     \<Rightarrow> cl_uint \<Rightarrow> cl_uint option" where
  "pointer_after 0 hash_index fetch eq key_value rowid = Some rowid"
| "pointer_after (Suc n) hash_index fetch eq key_value rowid =
     (if rowid = UINT_MAX then None
      else if hi_nrooms hash_index \<le> ucast rowid then None
      else if key_matches fetch eq key_value rowid then None
      else pointer_after n hash_index fetch eq key_value (rowmap hash_index (unat rowid)))"

section \<open>Row-id map\<close>

text \<open>
  \<^verbatim>\<open>GpuStoreRowIdMapHead\<close>: the bitmap \<^verbatim>\<open>cl_ulong base[]\<close> is a function from
  word indices to 64-bit words; a pointer into it is a word index.
  \<^verbatim>\<open>gstoreFdwRowIdMapSize\<close> gives the levels 4, \<^verbatim>\<open>4 << 8\<close> and \<^verbatim>\<open>4 << 16\<close>
  words ahead of the leaf level; here it counts the words of \<^verbatim>\<open>base[]\<close>.
\<close>

type_synonym rowid_mem = "nat \<Rightarrow> cl_ulong"

definition TYPEALIGN :: "nat \<Rightarrow> nat \<Rightarrow> nat" where
  "TYPEALIGN a len = ((len + (a - 1)) div a) * a"

definition gstoreFdwRowIdMapSize_words :: "cl_uint \<Rightarrow> nat" where
  "gstoreFdwRowIdMapSize_words nrooms =
     (if nrooms \<le> 256 then 4
      else if nrooms \<le> 65536 then 4 + TYPEALIGN 256 (unat nrooms) div 64
      else if nrooms \<le> 16777216 then 4 + 1024 + TYPEALIGN 256 (unat nrooms) div 64
      else 4 + 1024 + 262144 + TYPEALIGN 256 (unat nrooms) div 64)"

text \<open>\<^verbatim>\<open>1UL << n\<close> and \<^verbatim>\<open>__builtin_ffsl\<close> (one plus the index of the lowest set
  bit, 0 for 0).\<close>

definition ulbit :: "nat \<Rightarrow> cl_ulong" where
  "ulbit n = push_bit n 1"

definition builtin_ffsl :: "cl_ulong \<Rightarrow> nat" where
  "builtin_ffsl x = (case find (bit x) [0..<64] of None \<Rightarrow> 0 | Some i \<Rightarrow> i + 1)"

text \<open>
  \<^verbatim>\<open>__gstoreFdwReleaseRowId\<close>.  \<open>release_clear\<close> is the statement
  \<^verbatim>\<open>base[i] &= ~(1UL << n)\<close>, \<open>release_test\<close> the test
  \<^verbatim>\<open>(bottom[rowid >> 6] & (1UL << (rowid & 0x3f))) == 0\<close>.
\<close>

definition release_clear :: "rowid_mem \<Rightarrow> nat \<Rightarrow> cl_uint \<Rightarrow> rowid_mem" where
  "release_clear base i n = base(i := base i AND NOT (ulbit (unat (n AND 0x3f))))"

definition release_test :: "rowid_mem \<Rightarrow> nat \<Rightarrow> cl_uint \<Rightarrow> bool" where
  "release_test base bottom rowid =
     (base (bottom + unat (drop_bit 6 rowid)) AND ulbit (unat (rowid AND 0x3f)) = 0)"

definition uu_gstoreFdwReleaseRowId ::
  "rowid_mem \<Rightarrow> cl_uint \<Rightarrow> cl_uint \<Rightarrow> bool \<times> rowid_mem" where
  "uu_gstoreFdwReleaseRowId base nrooms rowid =
     (if rowid < nrooms then
        (if nrooms \<le> 256 then
           (if release_test base 0 rowid then (False, base)
            else (True, release_clear base (unat (drop_bit 6 rowid)) rowid))
         else if nrooms \<le> 65536 then
           (if release_test base 4 rowid then (False, base)
            else (True,
              release_clear
                (release_clear base (unat (drop_bit 14 rowid)) (drop_bit 8 rowid))
                (4 + unat (drop_bit 6 rowid)) rowid))
         else if nrooms \<le> 16777216 then
           (if release_test base (4 + 1024) rowid then (False, base)
            else (True,
              release_clear
                (release_clear
                   (release_clear base (unat (drop_bit 22 rowid)) (drop_bit 16 rowid))
                   (4 + unat (drop_bit 14 rowid)) (drop_bit 8 rowid))
                (4 + 1024 + unat (drop_bit 6 rowid)) rowid))
         else
           (if release_test base (4 + 1024 + 262144) rowid then (False, base)
            else (True,
              release_clear
                (release_clear
                   (release_clear
                      (release_clear base (unat (drop_bit 30 rowid)) (drop_bit 24 rowid))
                      (4 + unat (drop_bit 22 rowid)) (drop_bit 16 rowid))
                   (4 + 1024 + unat (drop_bit 14 rowid)) (drop_bit 8 rowid))
                (4 + 1024 + 262144 + unat (drop_bit 6 rowid)) rowid)))
      else (False, base))"

text \<open>\<^verbatim>\<open>gstoreFdwReleaseRowId\<close> drops the verdict.\<close>

definition gstoreFdwReleaseRowId :: "rowid_mem \<Rightarrow> cl_uint \<Rightarrow> cl_uint \<Rightarrow> rowid_mem" where
  "gstoreFdwReleaseRowId base nrooms rowid = snd (uu_gstoreFdwReleaseRowId base nrooms rowid)"

text \<open>
  \<^verbatim>\<open>__gstoreFdwAllocateRowId\<close>.  A call takes the bitmap, the pointer \<^verbatim>\<open>base\<close>,
  \<^verbatim>\<open>min_id\<close> and \<^verbatim>\<open>offset\<close>, and gives the row id, the value written to
  \<^verbatim>\<open>*p_has_unused_rowids\<close> and the bitmap.  \<open>next_level\<close> is the
  \<^verbatim>\<open>switch (depth)\<close> that sets \<^verbatim>\<open>next\<close> (\<open>None\<close> for \<^verbatim>\<open>NULL\<close>).
\<close>

type_synonym alloc_call =
  "rowid_mem \<Rightarrow> nat \<Rightarrow> cl_uint \<Rightarrow> cl_uint \<Rightarrow> cl_uint \<times> bool \<times> rowid_mem"

definition next_level :: "cl_uint \<Rightarrow> nat \<Rightarrow> nat \<Rightarrow> nat option" where
  "next_level nrooms depth base =
     (if depth = 0 then (if 256 < nrooms then Some (base + 4) else None)
      else if depth = 1 then (if 65536 < nrooms then Some (base + 4 + 1024) else None)
      else if depth = 2 then
        (if 16777216 < nrooms then Some (base + 4 + 1024 + 262144) else None)
      else None)"

definition zero_bits :: "cl_ulong \<Rightarrow> nat set" where
  "zero_bits w = {i. i < 64 \<and> \<not> bit w i}"

lemma bit_ulbit: "bit (ulbit p) i \<longleftrightarrow> i = p \<and> p < 64"
  unfolding ulbit_def
  by (auto simp only: bit_push_bit_iff bit_1_iff possible_bit_word len_of_numeral_defs)

lemma has_zero_bit:
  assumes "(w :: cl_ulong) \<noteq> - 1"
  shows "\<exists>i<64. \<not> bit w i"
proof (rule ccontr)
  assume "\<not> (\<exists>i<64. \<not> bit w i)"
  then have all: "\<forall>i<64. bit w i" by simp
  have "w = - 1"
    by (rule bit_word_eqI) (use all in simp)
  with assms show False by simp
qed

lemma ffsl_zero_bit:
  assumes "w \<noteq> - 1"
  shows "builtin_ffsl (NOT w) - 1 < 64 \<and> \<not> bit w (builtin_ffsl (NOT w) - 1)"
proof -
  from has_zero_bit [OF assms] obtain i where i: "i < 64" "\<not> bit w i" by blast
  then have "find (bit (NOT w)) [0..<64] \<noteq> None"
    by (auto simp: find_None_iff bit_not_iff)
  then obtain j where j: "find (bit (NOT w)) [0..<64] = Some j" by blast
  then have "j < 64 \<and> bit (NOT w) j"
    by (auto simp: find_Some_iff)
  with j show ?thesis by (simp add: builtin_ffsl_def bit_not_iff)
qed

lemma zero_bits_retry:
  assumes "w \<noteq> - 1"
  shows "card (zero_bits (w OR ulbit (builtin_ffsl (NOT w) - 1))) < card (zero_bits w)"
proof -
  let ?p = "builtin_ffsl (NOT w) - 1"
  from ffsl_zero_bit [OF assms] have p: "?p < 64" "\<not> bit w ?p" by simp_all
  have "zero_bits (w OR ulbit ?p) = zero_bits w - {?p}"
    using p by (auto simp: zero_bits_def bit_or_iff bit_ulbit)
  moreover have "?p \<in> zero_bits w" using p by (simp add: zero_bits_def)
  moreover have "finite (zero_bits w)" by (simp add: zero_bits_def)
  ultimately show ?thesis by (metis card_Diff1_less)
qed

text \<open>
  The loop \<^verbatim>\<open>for (k=start; k < 4; k++, mask=0)\<close> with its label \<^verbatim>\<open>retry\<close>, entered
  at the label: \<open>k\<close> and \<open>bitmap\<close> (the local \<^verbatim>\<open>map\<close>) are the loop state,
  \<open>child\<close> is the recursive call at \<^verbatim>\<open>depth+1\<close>.  The result is the local
  \<^verbatim>\<open>rowid\<close> when the loop ends, with the bitmap.
\<close>

function alloc_scan ::
  "alloc_call \<Rightarrow> cl_uint \<Rightarrow> nat option \<Rightarrow> nat \<Rightarrow> cl_uint \<Rightarrow> nat \<Rightarrow> cl_ulong \<Rightarrow> cl_uint
     \<Rightarrow> rowid_mem \<Rightarrow> cl_uint \<times> rowid_mem" where
  "alloc_scan child nrooms nxt base offset k bitmap min_id mem =
     (if bitmap \<noteq> - 1 then
        (let pos = builtin_ffsl (NOT bitmap) - 1;
             b = ulbit pos;
             rowid = of_nat pos OR (push_bit 8 offset OR push_bit 6 (of_nat k))
         in case nxt of
              None \<Rightarrow>
                (if rowid < nrooms then (rowid, mem(base + k := mem (base + k) OR b))
                 else (UINT_MAX, mem))
            | Some next_base \<Rightarrow>
                (let res = child mem next_base (push_bit 8 min_id) rowid;
                     mem' = (if \<not> fst (snd res)
                             then (snd (snd res))(base + k := snd (snd res) (base + k) OR b)
                             else snd (snd res))
                 in if fst res = UINT_MAX
                    then alloc_scan child nrooms nxt base offset k (bitmap OR b) 0 mem'
                    else (fst res, mem')))
      else if k + 1 < 4 then
        alloc_scan child nrooms nxt base offset (k + 1) (mem (base + (k + 1))) min_id mem
      else (UINT_MAX, mem))"
  by pat_completeness auto
termination
  by (relation "measures [\<lambda>(child, nrooms, nxt, base, offset, k, bitmap, min_id, mem). 4 - k,
                          \<lambda>(child, nrooms, nxt, base, offset, k, bitmap, min_id, mem).
                             card (zero_bits bitmap)]")
    (auto dest: zero_bits_retry)

declare alloc_scan.simps [simp del]

text \<open>
  One call of \<^verbatim>\<open>__gstoreFdwAllocateRowId\<close> at \<open>depth\<close>: the range test on
  \<^verbatim>\<open>offset << 8\<close>, the \<^verbatim>\<open>default\<close> branch of the switch, \<^verbatim>\<open>base += 4 * offset\<close>,
  the loop, and the final test of the four words for \<^verbatim>\<open>*p_has_unused_rowids\<close>.
  The \<^verbatim>\<open>default\<close> branch leaves \<^verbatim>\<open>*p_has_unused_rowids\<close> unwritten; the model
  gives \<open>True\<close> there (the branch is not reached: at depth 3 \<^verbatim>\<open>next\<close> is \<^verbatim>\<open>NULL\<close>).
\<close>

definition alloc_level :: "alloc_call \<Rightarrow> cl_uint \<Rightarrow> nat \<Rightarrow> alloc_call" where
  "alloc_level child nrooms depth mem base min_id offset =
     (let mask = ulbit (unat (drop_bit 24 min_id AND 0x3f)) - 1;
          start = unat (drop_bit 30 min_id)
      in if nrooms \<le> push_bit 8 offset then (UINT_MAX, False, mem)
         else if 3 < depth then (UINT_MAX, True, mem)
         else
           (let nxt = next_level nrooms depth base;
                base' = base + unat (4 * offset);
                res = alloc_scan child nrooms nxt base' offset start
                        (mem (base' + start) OR mask) min_id mem
            in (fst res,
                (snd res base' AND snd res (base' + 1) AND snd res (base' + 2)
                   AND snd res (base' + 3)) \<noteq> - 1,
                snd res)))"

primrec alloc_rec :: "nat \<Rightarrow> cl_uint \<Rightarrow> nat \<Rightarrow> alloc_call" where
  "alloc_rec 0 nrooms depth = (\<lambda>mem base min_id offset. (UINT_MAX, True, mem))"
| "alloc_rec (Suc n) nrooms depth =
     alloc_level (alloc_rec n nrooms (depth + 1)) nrooms depth"

definition uu_gstoreFdwAllocateRowId :: "cl_uint \<Rightarrow> nat \<Rightarrow> alloc_call" where
  "uu_gstoreFdwAllocateRowId nrooms depth = alloc_rec (4 - depth) nrooms depth"

text \<open>\<^verbatim>\<open>gstoreFdwAllocateRowId\<close>: the row id and the bitmap.\<close>

definition gstoreFdwAllocateRowId ::
  "rowid_mem \<Rightarrow> cl_uint \<Rightarrow> cl_uint \<Rightarrow> cl_uint \<times> rowid_mem" where
  "gstoreFdwAllocateRowId base nrooms min_rowid =
     (if min_rowid < nrooms then
        (let min_id = (if nrooms \<le> 256 then push_bit 24 min_rowid
                       else if nrooms \<le> 65536 then push_bit 16 min_rowid
                       else if nrooms \<le> 16777216 then push_bit 8 min_rowid
                       else min_rowid);
             res = uu_gstoreFdwAllocateRowId nrooms 0 base 0 min_id 0
         in (fst res, snd (snd res)))
      else (UINT_MAX, base))"

text \<open>
  The layout that \<^verbatim>\<open>gstoreFdwRowIdMapSize\<close> and \<^verbatim>\<open>__gstoreFdwReleaseRowId\<close> share:
  the number of levels for a capacity, the word index at which a level starts, and
  the path of a row id, from its summary bit at the root down to its leaf bit, each
  as (word index, bit number).  \<open>leaf_bit\<close> reads the leaf bit of a row id.
\<close>

definition rowid_map_depth :: "cl_uint \<Rightarrow> nat" where
  "rowid_map_depth nrooms =
     (if nrooms \<le> 256 then 1 else if nrooms \<le> 65536 then 2
      else if nrooms \<le> 16777216 then 3 else 4)"

definition level_offset :: "nat \<Rightarrow> nat" where
  "level_offset l =
     (if l = 0 then 0 else if l = 1 then 4 else if l = 2 then 4 + 1024
      else 4 + 1024 + 262144)"

definition rowid_path :: "cl_uint \<Rightarrow> cl_uint \<Rightarrow> (nat \<times> nat) list" where
  "rowid_path nrooms rowid =
     map (\<lambda>l. (level_offset l
                  + unat (drop_bit (8 * (rowid_map_depth nrooms - 1 - l) + 6) rowid),
                unat (drop_bit (8 * (rowid_map_depth nrooms - 1 - l)) rowid AND 0x3f)))
         [0..<rowid_map_depth nrooms]"

definition leaf_bit :: "rowid_mem \<Rightarrow> cl_uint \<Rightarrow> cl_uint \<Rightarrow> bool" where
  "leaf_bit base nrooms rowid =
     bit (base (level_offset (rowid_map_depth nrooms - 1) + unat (drop_bit 6 rowid)))
         (unat (rowid AND 0x3f))"


primrec alloc_leaf :: "nat \<Rightarrow> cl_uint \<Rightarrow> nat \<Rightarrow> nat \<Rightarrow> nat" where
  "alloc_leaf 0 nrooms depth b = b"
| "alloc_leaf (Suc n) nrooms depth b =
     (case next_level nrooms depth b of None \<Rightarrow> b
      | Some nb \<Rightarrow> alloc_leaf n nrooms (depth + 1) nb)"

definition alloc_leaf_bit :: "rowid_mem \<Rightarrow> cl_uint \<Rightarrow> cl_uint \<Rightarrow> bool" where
  "alloc_leaf_bit base nrooms rowid =
     bit (base (alloc_leaf 4 nrooms 0 0 + unat (drop_bit 6 rowid))) (unat (rowid AND 0x3f))"

section \<open>Base store\<close>

text \<open>
  The schema part of the base file (\<^verbatim>\<open>kern_data_store\<close> in column format) with the
  fields \<^verbatim>\<open>gstore_fdw.c\<close> reads and writes.  \<open>kds_attlen\<close> is the length of a
  column's type (\<open>-1\<close> for a variable-length one), \<open>kds_usage\<close> the unpacked
  \<^verbatim>\<open>usage\<close> of the extra buffer in bytes, \<open>kds_cells\<close> the user columns
  (\<open>None\<close> is NULL) and \<open>kds_sysattr\<close> the trailing system column, which is
  declared NOT NULL by \<^verbatim>\<open>gstoreFdwDeviceTupleDesc\<close>.  A datum is the list of the
  bytes of its value.
\<close>

type_synonym Datum = "8 word list"

record kern_data_store =
  kds_nrooms :: cl_uint
  kds_nitems :: cl_uint
  kds_has_varlena :: bool
  kds_usage :: nat
  kds_extra_hoffset :: nat
  kds_extra_hlength :: nat
  kds_attlen :: "nat \<Rightarrow> int"
  kds_cells :: "nat \<Rightarrow> nat \<Rightarrow> Datum option"
  kds_sysattr :: "nat \<Rightarrow> GstoreFdwSysattr"

text \<open>
  Modelled from the spec: \<^verbatim>\<open>KDS_fetch_datum_column\<close> and
  \<^verbatim>\<open>KDS_store_datum_column\<close> are called by \<^verbatim>\<open>gstore_fdw.c\<close> but defined elsewhere.
  The spec (4.1): fetch and store read and write a single field of a row; for a
  variable-length column, store allocates the bytes of the value in the out-of-line
  region.  Fetch gives the value and the null flag; store of a value into a
  variable-length column advances \<open>kds_usage\<close> by the length of the value.
\<close>

definition KDS_fetch_datum_column :: "kern_data_store \<Rightarrow> nat \<Rightarrow> nat \<Rightarrow> Datum \<times> bool" where
  "KDS_fetch_datum_column kds j rowid =
     (case kds_cells kds j rowid of None \<Rightarrow> ([], True) | Some datum \<Rightarrow> (datum, False))"

definition KDS_store_datum_column ::
  "kern_data_store \<Rightarrow> nat \<Rightarrow> nat \<Rightarrow> Datum \<Rightarrow> bool \<Rightarrow> kern_data_store" where
  "KDS_store_datum_column kds j rowid datum isnull =
     kds\<lparr>kds_cells := (kds_cells kds)
            (j := (kds_cells kds j)(rowid := (if isnull then None else Some datum))),
         kds_usage := (if \<not> isnull \<and> kds_attlen kds j = - 1
                       then kds_usage kds + length datum else kds_usage kds)\<rparr>"

text \<open>
  The base file as \<^verbatim>\<open>pmem_map_file\<close> maps it: its size, the schema section, the
  row-id map section and the hash index section.
\<close>

record base_file =
  bf_size :: nat
  bf_schema :: kern_data_store
  bf_rowid_map :: rowid_mem
  bf_hash_index :: "GpuStoreHashIndexHead option"

section \<open>Redo log and replay\<close>

text \<open>
  A log record as replay reads it (\<^verbatim>\<open>GstoreTxLogCommon\<close> and \<^verbatim>\<open>GstoreTxLogRow\<close> are
  declared in a header that is not part of the source): the tag, the length, the row
  id, the fields of the tuple header \<^verbatim>\<open>htup\<close> that replay uses (\<^verbatim>\<open>t_xmin\<close>,
  \<^verbatim>\<open>t_xmax\<close>, \<^verbatim>\<open>t_cid\<close>, and \<^verbatim>\<open>t_ctid\<close> read as
  \<^verbatim>\<open>(bi_hi << 16) | bi_lo\<close>), the columns as \<^verbatim>\<open>heap_deform_tuple\<close> gives them, and the
  bitmap behind the tuple (bit \<open>j\<close> set: column \<open>j\<close> is not updated).  The four
  tags are distinct constants of that header; any other value of the type field is
  \<open>GSTORE_TX_LOG__OTHER\<close>.
\<close>

datatype log_tag =
  GSTORE_TX_LOG__INSERT | GSTORE_TX_LOG__UPDATE | GSTORE_TX_LOG__DELETE
  | GSTORE_TX_LOG__COMMIT | GSTORE_TX_LOG__OTHER cl_uint

record GstoreTxLogRow =
  log_type :: log_tag
  log_length :: cl_uint
  log_rowid :: cl_uint
  htup_xmin :: TransactionId
  htup_xmax :: TransactionId
  htup_cid :: CommandId
  htup_ctid :: cl_uint
  htup_values :: "nat \<Rightarrow> Datum option"
  update_mask :: "nat \<Rightarrow> bool"

text \<open>
  The two offsets of that header that replay uses,
  \<^verbatim>\<open>offsetof(GstoreTxLogCommon, data)\<close> and \<^verbatim>\<open>offsetof(GstoreTxLogRow, htup)\<close>, are
  inputs of the model.
\<close>

record tx_log_offsets =
  off_common_data :: nat
  off_row_htup :: nat

text \<open>
  The mapped redo log: \<^verbatim>\<open>checkpoint_offset\<close> of its header and the record found at
  each byte offset.
\<close>

record GpuStoreRedoLogHead =
  checkpoint_offset :: nat
  redo_at :: "nat \<Rightarrow> GstoreTxLogRow"

text \<open>
  \<^verbatim>\<open>__ApplyRedoLogInsert\<close>: every user column is stored, then the system attribute
  with \<^verbatim>\<open>xmax\<close> invalid.  \<open>natts\<close> is \<^verbatim>\<open>tupdesc->natts\<close>.
\<close>

definition store_column ::
  "GstoreTxLogRow \<Rightarrow> kern_data_store \<Rightarrow> nat \<Rightarrow> Datum \<times> bool \<Rightarrow> kern_data_store" where
  "store_column r_log kds j v =
     KDS_store_datum_column kds j (unat (log_rowid r_log)) (fst v) (snd v)"

definition deformed :: "GstoreTxLogRow \<Rightarrow> nat \<Rightarrow> Datum \<times> bool" where
  "deformed r_log j = (case htup_values r_log j of None \<Rightarrow> ([], True) | Some d \<Rightarrow> (d, False))"

definition uu_ApplyRedoLogInsert ::
  "nat \<Rightarrow> kern_data_store \<Rightarrow> GstoreTxLogRow \<Rightarrow> kern_data_store" where
  "uu_ApplyRedoLogInsert natts kds r_log =
     (let kds' = fold (\<lambda>j k. store_column r_log k j (deformed r_log j)) [0..<natts] kds
      in kds'\<lparr>kds_sysattr := (kds_sysattr kds')
               (unat (log_rowid r_log) :=
                  \<lparr>xmin = htup_xmin r_log, xmax = InvalidTransactionId,
                   cid = htup_cid r_log\<rparr>)\<rparr>)"

text \<open>
  \<^verbatim>\<open>__ApplyRedoLogUpdate\<close>: a column whose bit is set in the bitmap is fetched from
  the old row id, any other taken from the record; then \<^verbatim>\<open>xmax\<close> and \<^verbatim>\<open>cid\<close> of the
  row \<^verbatim>\<open>r_log->rowid\<close> and \<^verbatim>\<open>xmin\<close> and \<^verbatim>\<open>cid\<close> of the row \<^verbatim>\<open>oldid\<close> are set,
  in this order.  (The system column is never NULL, so the two \<^verbatim>\<open>elog(ERROR)\<close> of
  the function are not reached.)
\<close>

definition update_column :: "GstoreTxLogRow \<Rightarrow> kern_data_store \<Rightarrow> nat \<Rightarrow> Datum \<times> bool" where
  "update_column r_log kds j =
     (if log_type r_log = GSTORE_TX_LOG__UPDATE \<and> update_mask r_log j
      then KDS_fetch_datum_column kds j (unat (htup_ctid r_log))
      else deformed r_log j)"

definition uu_ApplyRedoLogUpdate ::
  "nat \<Rightarrow> kern_data_store \<Rightarrow> GstoreTxLogRow \<Rightarrow> kern_data_store" where
  "uu_ApplyRedoLogUpdate natts kds r_log =
     (let kds1 = fold (\<lambda>j k. store_column r_log k j (update_column r_log k j)) [0..<natts] kds;
          rowid = unat (log_rowid r_log);
          oldid = unat (htup_ctid r_log);
          kds2 = kds1\<lparr>kds_sysattr := (kds_sysattr kds1)
                   (rowid := (kds_sysattr kds1 rowid)
                      \<lparr>xmax := htup_xmin r_log, cid := htup_cid r_log\<rparr>)\<rparr>
      in kds2\<lparr>kds_sysattr := (kds_sysattr kds2)
                (oldid := (kds_sysattr kds2 oldid)
                   \<lparr>xmin := htup_xmin r_log, cid := htup_cid r_log\<rparr>)\<rparr>)"

text \<open>\<^verbatim>\<open>__ApplyRedoLogDelete\<close>.\<close>

definition uu_ApplyRedoLogDelete :: "kern_data_store \<Rightarrow> GstoreTxLogRow \<Rightarrow> kern_data_store" where
  "uu_ApplyRedoLogDelete kds r_log =
     kds\<lparr>kds_sysattr := (kds_sysattr kds)
           (unat (log_rowid r_log) := (kds_sysattr kds (unat (log_rowid r_log)))
              \<lparr>xmax := htup_xmax r_log, cid := htup_cid r_log\<rparr>)\<rparr>"

text \<open>The dispatch on the record type in \<^verbatim>\<open>__ApplyRedoLogMain\<close>.\<close>

definition apply_row_log :: "nat \<Rightarrow> kern_data_store \<Rightarrow> GstoreTxLogRow \<Rightarrow> kern_data_store" where
  "apply_row_log natts kds r_log =
     (if log_type r_log = GSTORE_TX_LOG__INSERT then uu_ApplyRedoLogInsert natts kds r_log
      else if log_type r_log = GSTORE_TX_LOG__UPDATE then uu_ApplyRedoLogUpdate natts kds r_log
      else if log_type r_log = GSTORE_TX_LOG__DELETE then uu_ApplyRedoLogDelete kds r_log
      else kds)"

text \<open>
  "Expand the extra buffer on demand".  Sizes are \<^verbatim>\<open>size_t\<close>: the arithmetic is
  written modulo \<open>2\<^sup>6\<^sup>4\<close>.  \<^verbatim>\<open>posix_fallocate(fd, 0, len)\<close> makes the file at least
  \<open>len\<close> bytes long and never shorter than it was, and fails for a \<open>len\<close> that is
  not positive as \<^verbatim>\<open>off_t\<close>; \<^verbatim>\<open>pmem_map_file\<close> with length 0 maps the whole file.
  \<^verbatim>\<open>offsetof(GpuStoreBaseFileHead, schema)\<close> is 88 (8 bytes of signature, two
  \<^verbatim>\<open>uint64\<close> and \<^verbatim>\<open>NAMEDATALEN\<close> = 64 bytes of name).
\<close>

datatype replay_error = posix_fallocate_failed

definition PAGE_SIZE :: nat where
  "PAGE_SIZE = 4096"

definition PAGE_ALIGN :: "nat \<Rightarrow> nat" where
  "PAGE_ALIGN len = TYPEALIGN PAGE_SIZE len mod 2 ^ 64"

definition offsetof_schema :: nat where
  "offsetof_schema = 88"

definition is_row_log :: "GstoreTxLogRow \<Rightarrow> bool" where
  "is_row_log tx_log =
     (log_type tx_log = GSTORE_TX_LOG__INSERT \<or> log_type tx_log = GSTORE_TX_LOG__UPDATE
      \<or> log_type tx_log = GSTORE_TX_LOG__DELETE)"

definition extra_needed :: "tx_log_offsets \<Rightarrow> kern_data_store \<Rightarrow> GstoreTxLogRow \<Rightarrow> nat" where
  "extra_needed offs kds r_log =
     ((unat (log_length r_log) + 2 ^ 64 - off_row_htup offs mod 2 ^ 64) mod 2 ^ 64
        + kds_usage kds) mod 2 ^ 64"

definition expand_extra ::
  "tx_log_offsets \<Rightarrow> base_file \<Rightarrow> GstoreTxLogRow \<Rightarrow> replay_error + base_file" where
  "expand_extra offs base_mmap r_log =
     (if kds_has_varlena (bf_schema base_mmap)
         \<and> (log_type r_log = GSTORE_TX_LOG__INSERT \<or> log_type r_log = GSTORE_TX_LOG__UPDATE)
         \<and> kds_extra_hlength (bf_schema base_mmap) < extra_needed offs (bf_schema base_mmap) r_log
      then
        (let sz = PAGE_ALIGN ((extra_needed offs (bf_schema base_mmap) r_log + 64 * 2 ^ 20)
                                mod 2 ^ 64)
         in if sz = 0 \<or> 2 ^ 63 \<le> sz then Inl posix_fallocate_failed
            else
              (let base_mmap_sz = max (bf_size base_mmap) sz
               in Inr (base_mmap
                    \<lparr>bf_size := base_mmap_sz,
                     bf_schema := (bf_schema base_mmap)
                       \<lparr>kds_extra_hlength :=
                          (base_mmap_sz + 2 ^ 64
                             - (offsetof_schema + kds_extra_hoffset (bf_schema base_mmap))
                                 mod 2 ^ 64) mod 2 ^ 64\<rparr>\<rparr>)))
      else Inr base_mmap)"

text \<open>
  The loop of \<^verbatim>\<open>__ApplyRedoLogMain\<close>.  A record of length 0 with a known tag would
  keep the loop at the same position for ever, so the loop takes fuel, one unit per
  record; \<open>None\<close> when it runs out.  The result is the final \<^verbatim>\<open>redo_pos\<close> with the
  base file, or the error raised.
\<close>

fun redo_loop ::
  "nat \<Rightarrow> tx_log_offsets \<Rightarrow> nat \<Rightarrow> GpuStoreRedoLogHead \<Rightarrow> nat \<Rightarrow> nat \<Rightarrow> base_file
     \<Rightarrow> (replay_error + nat \<times> base_file) option" where
  "redo_loop 0 offs natts redo_mmap redo_mmap_sz redo_pos base_mmap = None"
| "redo_loop (Suc fuel) offs natts redo_mmap redo_mmap_sz redo_pos base_mmap =
     (if (redo_pos + off_common_data offs) mod 2 ^ 64 < redo_mmap_sz then
        (if is_row_log (redo_at redo_mmap redo_pos) then
           (case expand_extra offs base_mmap (redo_at redo_mmap redo_pos) of
              Inl err \<Rightarrow> Some (Inl err)
            | Inr base_mmap' \<Rightarrow>
                redo_loop fuel offs natts redo_mmap redo_mmap_sz
                  ((redo_pos + unat (log_length (redo_at redo_mmap redo_pos))) mod 2 ^ 64)
                  (base_mmap'\<lparr>bf_schema :=
                      apply_row_log natts (bf_schema base_mmap') (redo_at redo_mmap redo_pos)\<rparr>))
         else if log_type (redo_at redo_mmap redo_pos) = GSTORE_TX_LOG__COMMIT then
           redo_loop fuel offs natts redo_mmap redo_mmap_sz
             ((redo_pos + unat (log_length (redo_at redo_mmap redo_pos))) mod 2 ^ 64) base_mmap
         else Some (Inr (redo_pos, base_mmap)))
      else Some (Inr (redo_pos, base_mmap)))"

text \<open>
  \<^verbatim>\<open>__rebuildRowIdMap\<close> and \<^verbatim>\<open>__rebuildHashIndex\<close>: both bodies are a \<^verbatim>\<open>TODO\<close>
  comment.
\<close>

definition uu_rebuildRowIdMap :: "base_file \<Rightarrow> base_file" where
  "uu_rebuildRowIdMap base_mmap = base_mmap"

definition uu_rebuildHashIndex :: "base_file \<Rightarrow> base_file" where
  "uu_rebuildHashIndex base_mmap = base_mmap"

definition uu_ApplyRedoLogMain ::
  "nat \<Rightarrow> tx_log_offsets \<Rightarrow> nat \<Rightarrow> GpuStoreRedoLogHead \<Rightarrow> nat \<Rightarrow> base_file
     \<Rightarrow> (replay_error + nat \<times> base_file) option" where
  "uu_ApplyRedoLogMain fuel offs natts redo_mmap redo_mmap_sz base_mmap =
     (case redo_loop fuel offs natts redo_mmap redo_mmap_sz (checkpoint_offset redo_mmap)
             base_mmap of
        None \<Rightarrow> None
      | Some (Inl err) \<Rightarrow> Some (Inl err)
      | Some (Inr (redo_pos, base_mmap')) \<Rightarrow>
          Some (Inr (redo_pos, uu_rebuildHashIndex (uu_rebuildRowIdMap base_mmap'))))"

text \<open>
  The loop of \<^verbatim>\<open>gstoreFdwApplyRedoLog\<close> for a base file that was shut down cleanly:
  records are skipped, nothing is applied.  The flag in the result tells whether the
  "uncertain magic code" message was logged.
\<close>

fun redo_seek ::
  "nat \<Rightarrow> tx_log_offsets \<Rightarrow> GpuStoreRedoLogHead \<Rightarrow> nat \<Rightarrow> nat \<Rightarrow> (nat \<times> bool) option" where
  "redo_seek 0 offs redo_mmap redo_mmap_sz redo_pos = None"
| "redo_seek (Suc fuel) offs redo_mmap redo_mmap_sz redo_pos =
     (if (redo_pos + off_common_data offs) mod 2 ^ 64 < redo_mmap_sz then
        (if is_row_log (redo_at redo_mmap redo_pos)
            \<or> log_type (redo_at redo_mmap redo_pos) = GSTORE_TX_LOG__COMMIT
         then redo_seek fuel offs redo_mmap redo_mmap_sz
                ((redo_pos + unat (log_length (redo_at redo_mmap redo_pos))) mod 2 ^ 64)
         else Some (redo_pos, log_type (redo_at redo_mmap redo_pos) \<noteq> GSTORE_TX_LOG__OTHER 0))
      else Some (redo_pos, False))"

text \<open>
  \<^verbatim>\<open>gstoreFdwApplyRedoLog\<close>: replay when the base file is not sane, seek otherwise.
  \<^verbatim>\<open>gstoreFdwValidateBaseFile\<close> clears the flag when the base file carries the
  signature of a mapped file.
\<close>

definition GPUSTORE_BASEFILE_SIGNATURE :: string where
  "GPUSTORE_BASEFILE_SIGNATURE = ''@BASE-1@''"

definition GPUSTORE_BASEFILE_MAPPED_SIGNATURE :: string where
  "GPUSTORE_BASEFILE_MAPPED_SIGNATURE = ''%Base-1%''"

datatype validate_error = wrong_signature

definition validate_signature :: "string \<Rightarrow> validate_error + bool" where
  "validate_signature signature =
     (if signature \<noteq> GPUSTORE_BASEFILE_SIGNATURE then
        (if signature = GPUSTORE_BASEFILE_MAPPED_SIGNATURE then Inr False
         else Inl wrong_signature)
      else Inr True)"

definition gstoreFdwApplyRedoLog ::
  "nat \<Rightarrow> tx_log_offsets \<Rightarrow> nat \<Rightarrow> GpuStoreRedoLogHead \<Rightarrow> nat \<Rightarrow> base_file \<Rightarrow> bool
     \<Rightarrow> (replay_error + nat \<times> base_file) option" where
  "gstoreFdwApplyRedoLog fuel offs natts redo_mmap redo_mmap_sz base_mmap basefile_is_sanity =
     (if \<not> basefile_is_sanity then
        uu_ApplyRedoLogMain fuel offs natts redo_mmap redo_mmap_sz base_mmap
      else
        (case redo_seek fuel offs redo_mmap redo_mmap_sz (checkpoint_offset redo_mmap) of
           None \<Rightarrow> None
         | Some (redo_pos, logged) \<Rightarrow> Some (Inr (redo_pos, base_mmap))))"

text \<open>
  The row records a walk from \<open>redo_pos\<close> meets, in log order, with the position
  at which the walk ends (\<open>None\<close> when the fuel runs out).
\<close>

fun redo_walk ::
  "nat \<Rightarrow> tx_log_offsets \<Rightarrow> GpuStoreRedoLogHead \<Rightarrow> nat \<Rightarrow> nat
     \<Rightarrow> (GstoreTxLogRow list \<times> nat) option" where
  "redo_walk 0 offs redo_mmap redo_mmap_sz redo_pos = None"
| "redo_walk (Suc fuel) offs redo_mmap redo_mmap_sz redo_pos =
     (if (redo_pos + off_common_data offs) mod 2 ^ 64 < redo_mmap_sz then
        (if is_row_log (redo_at redo_mmap redo_pos) then
           (case redo_walk fuel offs redo_mmap redo_mmap_sz
                   ((redo_pos + unat (log_length (redo_at redo_mmap redo_pos))) mod 2 ^ 64) of
              None \<Rightarrow> None
            | Some (rs, end_pos) \<Rightarrow> Some (redo_at redo_mmap redo_pos # rs, end_pos))
         else if log_type (redo_at redo_mmap redo_pos) = GSTORE_TX_LOG__COMMIT then
           redo_walk fuel offs redo_mmap redo_mmap_sz
             ((redo_pos + unat (log_length (redo_at redo_mmap redo_pos))) mod 2 ^ 64)
         else Some ([], redo_pos))
      else Some ([], redo_pos))"

text \<open>
  Applying a list of row records in order, each after the expansion of the extra
  buffer that its payload asks for.
\<close>

fun replay_records ::
  "tx_log_offsets \<Rightarrow> nat \<Rightarrow> GstoreTxLogRow list \<Rightarrow> base_file \<Rightarrow> replay_error + base_file" where
  "replay_records offs natts [] base_mmap = Inr base_mmap"
| "replay_records offs natts (r_log # rs) base_mmap =
     (case expand_extra offs base_mmap r_log of
        Inl err \<Rightarrow> Inl err
      | Inr base_mmap' \<Rightarrow>
          replay_records offs natts rs
            (base_mmap'\<lparr>bf_schema := apply_row_log natts (bf_schema base_mmap') r_log\<rparr>))"

section \<open>What a replayed record writes\<close>

text \<open>
  What a row record stores into the cell of column \<open>j\<close> of a row when it is
  replayed: nothing, a value of the record, or what the cell of the same column of
  another row holds at that moment (a column of an UPDATE record whose bit is set in
  the bitmap; copying a cell onto itself stores nothing new).
\<close>

datatype cell_write = keep_cell | store_value "Datum option" | copy_cell nat

definition record_write :: "nat \<Rightarrow> GstoreTxLogRow \<Rightarrow> nat \<Rightarrow> nat \<Rightarrow> cell_write" where
  "record_write natts r_log j rowid =
     (if j < natts \<and> rowid = unat (log_rowid r_log) then
        (if log_type r_log = GSTORE_TX_LOG__INSERT then store_value (htup_values r_log j)
         else if log_type r_log = GSTORE_TX_LOG__UPDATE then
           (if update_mask r_log j then
              (if unat (htup_ctid r_log) = rowid then keep_cell
               else copy_cell (unat (htup_ctid r_log)))
            else store_value (htup_values r_log j))
         else keep_cell)
      else keep_cell)"

definition cells_after ::
  "nat \<Rightarrow> GstoreTxLogRow \<Rightarrow> (nat \<Rightarrow> nat \<Rightarrow> Datum option) \<Rightarrow> nat \<Rightarrow> nat \<Rightarrow> Datum option" where
  "cells_after natts r_log cells j rowid =
     (case record_write natts r_log j rowid of
        keep_cell \<Rightarrow> cells j rowid
      | store_value v \<Rightarrow> v
      | copy_cell oldid \<Rightarrow> cells j oldid)"

text \<open>The system attributes after a row record is replayed.\<close>

definition sysattr_after ::
  "GstoreTxLogRow \<Rightarrow> (nat \<Rightarrow> GstoreFdwSysattr) \<Rightarrow> nat \<Rightarrow> GstoreFdwSysattr" where
  "sysattr_after r_log s =
     (if log_type r_log = GSTORE_TX_LOG__INSERT then
        s(unat (log_rowid r_log) :=
            \<lparr>xmin = htup_xmin r_log, xmax = InvalidTransactionId, cid = htup_cid r_log\<rparr>)
      else if log_type r_log = GSTORE_TX_LOG__UPDATE then
        (let s1 = s(unat (log_rowid r_log) := (s (unat (log_rowid r_log)))
                      \<lparr>xmax := htup_xmin r_log, cid := htup_cid r_log\<rparr>)
         in s1(unat (htup_ctid r_log) := (s1 (unat (htup_ctid r_log)))
                 \<lparr>xmin := htup_xmin r_log, cid := htup_cid r_log\<rparr>))
      else if log_type r_log = GSTORE_TX_LOG__DELETE then
        s(unat (log_rowid r_log) := (s (unat (log_rowid r_log)))
            \<lparr>xmax := htup_xmax r_log, cid := htup_cid r_log\<rparr>)
      else s)"

text \<open>
  A segment keeps its copy sources when no record of it stores into a cell that an
  earlier UPDATE record of the segment copied from another row.
\<close>

fun copy_sources_kept :: "nat \<Rightarrow> GstoreTxLogRow list \<Rightarrow> bool" where
  "copy_sources_kept natts [] = True"
| "copy_sources_kept natts (r_log # rs) =
     (list_all
        (\<lambda>j. case record_write natts r_log j (unat (log_rowid r_log)) of
               copy_cell oldid \<Rightarrow> list_all (\<lambda>r'. record_write natts r' j oldid = keep_cell) rs
             | _ \<Rightarrow> True)
        [0..<natts]
      \<and> copy_sources_kept natts rs)"

text \<open>No column is stored out of line.\<close>

definition fixed_length_only :: "nat \<Rightarrow> kern_data_store \<Rightarrow> bool" where
  "fixed_length_only natts kds =
     (\<not> kds_has_varlena kds \<and> list_all (\<lambda>j. kds_attlen kds j \<noteq> - 1) [0..<natts])"

text \<open>The cell that a store of a datum with its null flag leaves behind.\<close>

definition to_cell :: "Datum \<times> bool \<Rightarrow> Datum option" where
  "to_cell v = (if snd v then None else Some (fst v))"

text \<open>
  An operation on the column of system attributes treats a field uniformly when,
  for every row, it either keeps the field or sets it to a value that does not
  depend on the column.
\<close>

definition field_const ::
  "(GstoreFdwSysattr \<Rightarrow> 'a) \<Rightarrow> ((nat \<Rightarrow> GstoreFdwSysattr) \<Rightarrow> nat \<Rightarrow> GstoreFdwSysattr) \<Rightarrow> bool" where
  "field_const f op = (\<forall>rowid. (\<forall>s. f (op s rowid) = f (s rowid)) \<or> (\<exists>v. \<forall>s. f (op s rowid) = v))"

text \<open>The cells (column, row) into which some record of a list stores.\<close>

definition written_by :: "nat \<Rightarrow> GstoreTxLogRow list \<Rightarrow> (nat \<times> nat) set" where
  "written_by natts rs = {(j, rowid). \<exists>r\<in>set rs. record_write natts r j rowid \<noteq> keep_cell}"

text \<open>
  No record of the list copies from a cell of \<open>D\<close> that no earlier record of
  the list has stored into.
\<close>

fun reads_outside :: "nat \<Rightarrow> (nat \<times> nat) set \<Rightarrow> GstoreTxLogRow list \<Rightarrow> bool" where
  "reads_outside natts D [] = True"
| "reads_outside natts D (r # rs) =
     ((\<forall>j rowid oldid. record_write natts r j rowid = copy_cell oldid \<longrightarrow> (j, oldid) \<notin> D)
      \<and> reads_outside natts (D - written_by natts [r]) rs)"

section \<open>Redo log files and append\<close>

text \<open>
  The files of the redo log.  A file is known to the directory by its path and has
  an identity of its own, which a rename keeps; a mapping refers to the file, not to
  the path.  The paths are the configured \<^verbatim>\<open>redo_log_file\<close> and the names
  \<^verbatim>\<open>"%s.newfile.%lu"\<close> and \<^verbatim>\<open>"%s.oldfile.%lu"\<close> made from it with a result of
  \<^verbatim>\<open>random()\<close>.  The content of a file is the list of the writes made to it: the
  header (signature, timestamp, \<^verbatim>\<open>checkpoint_offset\<close>) and the records copied to
  an offset.
\<close>

datatype log_path = redo_log_file | newfile nat | oldfile nat

text \<open>
  The record that \<^verbatim>\<open>gstoreFdwAppendRedoLog\<close> assembles in \<^verbatim>\<open>r_log\<close>: type, length,
  timestamp, row id, transaction id, the bytes of the tuple, the three values set
  in its header afterwards (datum length, type id, type modifier), and the words of
  \<^verbatim>\<open>updatedCols\<close> copied behind the tuple for an UPDATE.
\<close>

record redo_image =
  ri_type :: log_tag
  ri_length :: nat
  ri_timestamp :: nat
  ri_rowid :: cl_uint
  ri_xid :: TransactionId
  ri_htup :: "8 word list"
  ri_datum_length :: nat
  ri_typeid :: cl_uint
  ri_typmod :: cl_uint
  ri_bitmap :: "64 word list"

datatype file_write = write_header string nat nat | write_record nat redo_image

record log_file =
  lf_size :: nat
  lf_writes :: "file_write list"

datatype lock_mode = LW_SHARED | LW_EXCLUSIVE

datatype lock_event = LWLockAcquire lock_mode | LWLockRelease

text \<open>
  The state \<^verbatim>\<open>gstoreFdwAppendRedoLog\<close> works on: the directory and the files, the
  fields of \<^verbatim>\<open>GpuStoreSharedState\<close> (\<^verbatim>\<open>redo_log_limit\<close>, \<^verbatim>\<open>redo_log_pos\<close>,
  \<^verbatim>\<open>redo_mmap_revision\<close>), the fields of \<^verbatim>\<open>GpuStoreDesc\<close> (the mapped file,
  \<open>None\<close> for \<^verbatim>\<open>NULL\<close>, and the revision of the mapping), the events on
  \<^verbatim>\<open>redo_mmap_lock\<close> so far, and the results that \<^verbatim>\<open>random()\<close> is going to give.
  A call that needs a random number when none is left has no result (\<open>None\<close>).
  Of the system calls, those fail whose failure follows from the state (a rename
  of a path that does not exist, a mapping of a path that does not exist, an
  allocation of a length that is not positive as \<^verbatim>\<open>off_t\<close>); the other failures of
  the file system are not followed.
\<close>

record redo_state =
  fs_dir :: "log_path \<Rightarrow> nat option"
  fs_files :: "nat \<Rightarrow> log_file"
  fs_next :: nat
  redo_log_limit :: nat
  redo_log_pos :: nat
  sstate_redo_mmap_revision :: "32 word"
  desc_redo_mmap :: "nat option"
  desc_redo_mmap_revision :: "32 word"
  redo_mmap_lock :: "lock_event list"
  randoms :: "nat list"

datatype redo_error =
  posix_fallocate_error | rename_error | pmem_map_file_error

definition GPUSTORE_REDOLOG_SIGNATURE :: string where
  "GPUSTORE_REDOLOG_SIGNATURE = ''@REDO-1@''"

definition MAXALIGN :: "nat \<Rightarrow> nat" where
  "MAXALIGN len = TYPEALIGN 8 len mod 2 ^ 64"

text \<open>
  \<^verbatim>\<open>offsetof(GpuStoreRedoLogHead, data)\<close>: 8 bytes of signature and two \<^verbatim>\<open>uint64\<close>.
\<close>

definition offsetof_redo_data :: nat where
  "offsetof_redo_data = 24"

text \<open>
  A loop that calls \<^verbatim>\<open>random()\<close> until the result is acceptable: the result
  accepted and the results left.
\<close>

fun draw_until :: "(nat \<Rightarrow> bool) \<Rightarrow> nat list \<Rightarrow> (nat \<times> nat list) option" where
  "draw_until ok [] = None"
| "draw_until ok (r # rs) = (if ok r then Some (r, rs) else draw_until ok rs)"

text \<open>
  \<^verbatim>\<open>__gstoreFdwSwitchRedoLog\<close>; \<open>timestamp\<close> is what \<^verbatim>\<open>GetCurrentTimestamp()\<close>
  returns.  On an error the temporary file is unlinked (\<^verbatim>\<open>PG_CATCH\<close>) and the
  error leaves with the state.
\<close>

definition switch_create :: "nat \<Rightarrow> nat \<Rightarrow> nat list \<Rightarrow> redo_state \<Rightarrow> redo_state" where
  "switch_create timestamp r rs st =
     st\<lparr>randoms := rs,
        fs_dir := (fs_dir st)(newfile r \<mapsto> fs_next st),
        fs_next := fs_next st + 1,
        fs_files := (fs_files st)(fs_next st :=
           \<lparr>lf_size = max (MAXALIGN offsetof_redo_data) (redo_log_limit st),
            lf_writes = [write_header GPUSTORE_REDOLOG_SIGNATURE timestamp
                           (MAXALIGN offsetof_redo_data)]\<rparr>),
        desc_redo_mmap := None\<rparr>"

definition switch_rename :: "nat \<Rightarrow> nat \<Rightarrow> nat \<Rightarrow> nat list \<Rightarrow> redo_state \<Rightarrow> redo_state" where
  "switch_rename old_file r r' rs st =
     st\<lparr>randoms := rs,
        fs_dir := (fs_dir st)(oldfile r' \<mapsto> old_file, redo_log_file := fs_dir st (newfile r),
                              newfile r := None)\<rparr>"

definition uu_gstoreFdwSwitchRedoLog ::
  "nat \<Rightarrow> redo_state \<Rightarrow> (redo_error \<times> redo_state + redo_state) option" where
  "uu_gstoreFdwSwitchRedoLog timestamp st =
     (case draw_until (\<lambda>r. fs_dir st (newfile r) = None) (randoms st) of
        None \<Rightarrow> None
      | Some (r, rs) \<Rightarrow>
          (if redo_log_limit st = 0 \<or> 2 ^ 63 \<le> redo_log_limit st then
             Some (Inl (posix_fallocate_error, st\<lparr>randoms := rs\<rparr>))
           else
             (let st1 = switch_create timestamp r rs st
              in case draw_until (\<lambda>r'. fs_dir st1 (oldfile r') = None) (randoms st1) of
                   None \<Rightarrow> None
                 | Some (r', rs') \<Rightarrow>
                     (case fs_dir st1 redo_log_file of
                        None \<Rightarrow>
                          Some (Inl (rename_error,
                            st1\<lparr>randoms := rs', fs_dir := (fs_dir st1)(newfile r := None)\<rparr>))
                      | Some old_file \<Rightarrow>
                          (let st2 = switch_rename old_file r r' rs' st1
                           in case draw_until
                                     (\<lambda>revision. (of_nat revision :: 32 word) \<noteq> UINT_MAX
                                        \<and> of_nat revision \<noteq> sstate_redo_mmap_revision st2)
                                     (randoms st2) of
                                None \<Rightarrow> None
                              | Some (revision, rs'') \<Rightarrow>
                                  Some (Inr (st2\<lparr>randoms := rs'',
                                     sstate_redo_mmap_revision := of_nat revision,
                                     redo_log_pos := MAXALIGN offsetof_redo_data\<rparr>)))))))"

text \<open>\<^verbatim>\<open>__gstoreFdwRemapRedoLog\<close>.\<close>

definition uu_gstoreFdwRemapRedoLog :: "redo_state \<Rightarrow> redo_error \<times> redo_state + redo_state" where
  "uu_gstoreFdwRemapRedoLog st =
     (case fs_dir st redo_log_file of
        None \<Rightarrow> Inl (pmem_map_file_error, st\<lparr>desc_redo_mmap := None\<rparr>)
      | Some f \<Rightarrow> Inr (st\<lparr>desc_redo_mmap := Some f,
                           desc_redo_mmap_revision := sstate_redo_mmap_revision st\<rparr>))"

text \<open>
  The length of the record, as \<^verbatim>\<open>gstoreFdwAppendRedoLog\<close> computes it from the
  length of the tuple and the number of words of \<^verbatim>\<open>updatedCols\<close> (\<open>None\<close> for
  \<^verbatim>\<open>NULL\<close>); \<^verbatim>\<open>offsetof(Bitmapset, words[n])\<close> is \<open>8 + 8 * n\<close>.
\<close>

definition redo_record_length :: "tx_log_offsets \<Rightarrow> nat \<Rightarrow> nat option \<Rightarrow> nat" where
  "redo_record_length offs t_len nwords =
     MAXALIGN ((off_row_htup offs + t_len
                + (case nwords of None \<Rightarrow> 0 | Some n \<Rightarrow> 8 + 8 * n)) mod 2 ^ 64)"

text \<open>
  \<^verbatim>\<open>gstoreFdwAppendRedoLog\<close> from the label \<^verbatim>\<open>retry\<close> on.  Every pass through the
  label takes one unit of fuel.  The process runs alone, so the compare-and-swap
  on \<^verbatim>\<open>redo_log_pos\<close> succeeds at its first attempt.
\<close>

fun append_retry ::
  "nat \<Rightarrow> nat \<Rightarrow> redo_image \<Rightarrow> bool \<Rightarrow> redo_state
     \<Rightarrow> (redo_error \<times> redo_state + redo_state) option" where
  "append_retry 0 timestamp r_log has_exclusive_lock st = None"
| "append_retry (Suc fuel) timestamp r_log has_exclusive_lock st =
     (case (if desc_redo_mmap st = None \<or> desc_redo_mmap_revision st \<noteq> sstate_redo_mmap_revision st
            then uu_gstoreFdwRemapRedoLog st else Inr st) of
        Inl err \<Rightarrow> Some (Inl err)
      | Inr st1 \<Rightarrow>
          (if redo_log_limit st1 < (redo_log_pos st1 + ri_length r_log) mod 2 ^ 64 then
             (if has_exclusive_lock then
                (case uu_gstoreFdwSwitchRedoLog timestamp st1 of
                   None \<Rightarrow> None
                 | Some (Inl err) \<Rightarrow> Some (Inl err)
                 | Some (Inr st2) \<Rightarrow> append_retry fuel timestamp r_log True st2)
              else
                append_retry fuel timestamp r_log True
                  (st1\<lparr>redo_mmap_lock := redo_mmap_lock st1
                          @ [LWLockRelease, LWLockAcquire LW_EXCLUSIVE]\<rparr>))
           else
             (case desc_redo_mmap st1 of
                None \<Rightarrow> Some (Inl (pmem_map_file_error, st1))
              | Some f \<Rightarrow>
                  Some (Inr (st1\<lparr>redo_log_pos := (redo_log_pos st1 + ri_length r_log) mod 2 ^ 64,
                     fs_files := (fs_files st1)(f := (fs_files st1 f)
                        \<lparr>lf_writes := lf_writes (fs_files st1 f)
                            @ [write_record (redo_log_pos st1) r_log]\<rparr>),
                     redo_mmap_lock := redo_mmap_lock st1 @ [LWLockRelease]\<rparr>)))))"

definition gstoreFdwAppendRedoLog ::
  "nat \<Rightarrow> tx_log_offsets \<Rightarrow> nat \<Rightarrow> log_tag \<Rightarrow> cl_uint \<Rightarrow> TransactionId \<Rightarrow> 8 word list
     \<Rightarrow> cl_uint \<Rightarrow> cl_uint \<Rightarrow> 64 word list option \<Rightarrow> redo_state
     \<Rightarrow> (redo_error \<times> redo_state + redo_state) option" where
  "gstoreFdwAppendRedoLog fuel offs timestamp logtype rowid xid tuple tdtypeid tdtypmod
       updatedCols st =
     append_retry fuel timestamp
       \<lparr>ri_type = logtype,
        ri_length = redo_record_length offs (length tuple) (map_option length updatedCols),
        ri_timestamp = timestamp, ri_rowid = rowid, ri_xid = xid, ri_htup = tuple,
        ri_datum_length = length tuple, ri_typeid = tdtypeid, ri_typmod = tdtypmod,
        ri_bitmap = (case updatedCols of None \<Rightarrow> [] | Some ws \<Rightarrow> ws)\<rparr>
       False
       (st\<lparr>redo_mmap_lock := redo_mmap_lock st @ [LWLockAcquire LW_SHARED]\<rparr>)"

section \<open>Insert\<close>









section \<open>Properties of the visibility checks\<close>

lemma write_horizon_part_fst:
  "fst (write_horizon_part sysattr oldestXmin) = TransactionIdPrecedes (xmax sysattr) oldestXmin"
  by (simp add: write_horizon_part_def)

text \<open>
  C2, as stated: the write check reports a slot reclaimable only if the deleting
  transaction has committed and precedes the horizon.  A slot nobody wrote to
  (\<^verbatim>\<open>xmin\<close> invalid) is reported reclaimable although it has no deleter at all.
\<close>

theorem C2_never_written_reclaimable_counterexample:
  "fst (gstoreCheckVisibilityForWrite
          \<lparr>TransactionIdIsCurrentTransactionId = (\<lambda>x. False),
           TransactionIdDidCommit = (\<lambda>x. False),
           TransactionIdIsInProgress = (\<lambda>x. False)\<rparr>
          \<lparr>xmin = 0, xmax = 0, cid = 0\<rparr> 50)
   \<and> \<not> TransactionIdDidCommit
          \<lparr>TransactionIdIsCurrentTransactionId = (\<lambda>x. False),
           TransactionIdDidCommit = (\<lambda>x. False),
           TransactionIdIsInProgress = (\<lambda>x. False)\<rparr> 0
   \<and> \<not> TransactionIdPrecedes 0 0"
  by (simp add: gstoreCheckVisibilityForWrite_def InvalidTransactionId_def
      FrozenTransactionId_def TransactionIdPrecedes_def TransactionIdIsNormal_def
      FirstNormalTransactionId_def)

text \<open>
  C2, amended: \<^verbatim>\<open>gstoreCheckVisibilityForWrite\<close> reports a slot reclaimable only
  if either nobody wrote the row or its inserter is neither the current transaction,
  nor in progress, nor committed (aborted or crashed); or the inserter is frozen, or
  committed and neither current nor in progress, and the row has a deleter
  (\<^verbatim>\<open>xmax\<close> not invalid) that is frozen and precedes the horizon, or is not
  frozen, not in progress and committed.
\<close>

theorem C2_write_visibility_reclaimable_only_if:
  assumes "fst (gstoreCheckVisibilityForWrite xs sysattr oldestXmin)"
  shows "xmin sysattr = InvalidTransactionId
       \<or> (xmin sysattr \<noteq> FrozenTransactionId
            \<and> (TransactionIdIsCurrentTransactionId xs (xmin sysattr) = False)
            \<and> (TransactionIdIsInProgress xs (xmin sysattr) = False)
            \<and> (TransactionIdDidCommit xs (xmin sysattr) = False))
       \<or> ((xmin sysattr = FrozenTransactionId
              \<or> ((TransactionIdIsCurrentTransactionId xs (xmin sysattr) = False)
                  \<and> (TransactionIdIsInProgress xs (xmin sysattr) = False)
                  \<and> TransactionIdDidCommit xs (xmin sysattr)))
            \<and> xmax sysattr \<noteq> InvalidTransactionId
            \<and> ((xmax sysattr = FrozenTransactionId
                  \<and> TransactionIdPrecedes FrozenTransactionId oldestXmin)
                \<or> (xmax sysattr \<noteq> FrozenTransactionId
                    \<and> (TransactionIdIsInProgress xs (xmax sysattr) = False)
                    \<and> TransactionIdDidCommit xs (xmax sysattr))))"
  using assms
  by (auto simp: gstoreCheckVisibilityForWrite_def write_xmax_part_def
      write_horizon_part_fst split: if_splits)

theorem C2_write_visibility_witness:
  "fst (gstoreCheckVisibilityForWrite
          \<lparr>TransactionIdIsCurrentTransactionId = (\<lambda>x. False),
           TransactionIdDidCommit = (\<lambda>x. False),
           TransactionIdIsInProgress = (\<lambda>x. False)\<rparr>
          \<lparr>xmin = 2, xmax = 2, cid = 0\<rparr> 50)
   \<and> TransactionIdPrecedes FrozenTransactionId 50"
proof -
  let ?xs = "\<lparr>TransactionIdIsCurrentTransactionId = (\<lambda>x. False),
           TransactionIdDidCommit = (\<lambda>x :: TransactionId. False),
           TransactionIdIsInProgress = (\<lambda>x. False)\<rparr>"
  let ?s = "\<lparr>xmin = 2, xmax = 2, cid = 0\<rparr> :: GstoreFdwSysattr"
  have h: "fst (gstoreCheckVisibilityForWrite ?xs ?s 50)"
    by (simp add: gstoreCheckVisibilityForWrite_def write_xmax_part_def
        write_horizon_part_def InvalidTransactionId_def FrozenTransactionId_def
        TransactionIdPrecedes_def TransactionIdIsNormal_def FirstNormalTransactionId_def)
  from C2_write_visibility_reclaimable_only_if [OF h] h show ?thesis
    by (simp add: InvalidTransactionId_def FrozenTransactionId_def)
qed

text \<open>
  The comparison against the horizon is made after \<^verbatim>\<open>xmax\<close> has been overwritten
  with \<^verbatim>\<open>InvalidTransactionId\<close>: a row whose deleter 100 has committed is
  reported reclaimable under the horizon 50, which 100 does not precede.
\<close>

lemma write_check_committed_deleter_beyond_horizon:
  "fst (gstoreCheckVisibilityForWrite
          \<lparr>TransactionIdIsCurrentTransactionId = (\<lambda>x. False),
           TransactionIdDidCommit = (\<lambda>x. x = 100),
           TransactionIdIsInProgress = (\<lambda>x. False)\<rparr>
          \<lparr>xmin = 2, xmax = 100, cid = 0\<rparr> 50)
   \<and> \<not> TransactionIdPrecedes 100 50"
  by (simp add: gstoreCheckVisibilityForWrite_def write_xmax_part_def
      write_horizon_part_def InvalidTransactionId_def FrozenTransactionId_def
      TransactionIdPrecedes_def TransactionIdIsNormal_def FirstNormalTransactionId_def)

text \<open>
  C3, as stated: a reader whose snapshot was taken before the inserting transaction
  committed never sees the row.  Transaction 100 was running when the snapshot was
  taken (it is in the snapshot's list of running transactions) and has committed by
  the time of the check: the row is seen.
\<close>

theorem C3_snapshot_not_consulted_counterexample:
  "XidInMVCCSnapshot 100 \<lparr>snap_xmin = 100, snap_xmax = 101, snap_xip = [100], curcid = 0\<rparr>
   \<and> fst (gstoreCheckVisibilityForRead
          \<lparr>TransactionIdIsCurrentTransactionId = (\<lambda>x. False),
           TransactionIdDidCommit = (\<lambda>x. x = 100),
           TransactionIdIsInProgress = (\<lambda>x. False)\<rparr>
          (\<lambda>r. \<lparr>xmin = 100, xmax = 0, cid = 0\<rparr>) 0
          \<lparr>snap_xmin = 100, snap_xmax = 101, snap_xip = [100], curcid = 0\<rparr>)"
  by (simp add: XidInMVCCSnapshot_def gstoreCheckVisibilityForRead_def
      uu_gstoreCheckVisibilityForRead_def read_xmax_part_def InvalidTransactionId_def
      FrozenTransactionId_def TransactionIdPrecedes_def TransactionIdIsNormal_def
      FirstNormalTransactionId_def)

text \<open>
  C3, amended: read visibility follows the commit status at the time of the check and
  the command id of the snapshot, not the snapshot's set of running transactions.
  A row whose inserter is another transaction still in progress is not seen; a row
  without deleter whose inserter is frozen or has committed by the time of the check
  is seen; and a reader sees a row it inserted itself at an earlier command id while
  the row has no deleter.
\<close>

theorem C3_read_visibility_by_commit_status:
  "(xmin (sysattrs (unat rowid)) \<noteq> FrozenTransactionId
      \<and> (TransactionIdIsCurrentTransactionId xs (xmin (sysattrs (unat rowid))) = False)
      \<and> (TransactionIdDidCommit xs (xmin (sysattrs (unat rowid))) = False)
      \<and> TransactionIdIsInProgress xs (xmin (sysattrs (unat rowid)))
      \<longrightarrow> fst (gstoreCheckVisibilityForRead xs sysattrs rowid snapshot) = False)
   \<and> ((xmin (sysattrs (unat rowid)) = FrozenTransactionId
         \<or> ((TransactionIdIsCurrentTransactionId xs (xmin (sysattrs (unat rowid))) = False)
             \<and> TransactionIdDidCommit xs (xmin (sysattrs (unat rowid)))))
      \<and> xmax (sysattrs (unat rowid)) = InvalidTransactionId
      \<longrightarrow> fst (gstoreCheckVisibilityForRead xs sysattrs rowid snapshot))
   \<and> (xmin (sysattrs (unat rowid)) \<noteq> FrozenTransactionId
      \<and> TransactionIdIsCurrentTransactionId xs (xmin (sysattrs (unat rowid)))
      \<and> cid (sysattrs (unat rowid)) < curcid snapshot
      \<and> xmax (sysattrs (unat rowid)) = InvalidTransactionId
      \<longrightarrow> fst (gstoreCheckVisibilityForRead xs sysattrs rowid snapshot))"
  by (auto simp: gstoreCheckVisibilityForRead_def uu_gstoreCheckVisibilityForRead_def
      read_xmax_part_def split: prod.splits if_splits)

theorem C3_read_visibility_witness:
  "fst (gstoreCheckVisibilityForRead
          \<lparr>TransactionIdIsCurrentTransactionId = (\<lambda>x. False),
           TransactionIdDidCommit = (\<lambda>x. False),
           TransactionIdIsInProgress = (\<lambda>x. x = 100)\<rparr>
          (\<lambda>r. \<lparr>xmin = 100, xmax = 0, cid = 0\<rparr>) 0
          \<lparr>snap_xmin = 100, snap_xmax = 101, snap_xip = [100], curcid = 0\<rparr>) = False
   \<and> fst (gstoreCheckVisibilityForRead
          \<lparr>TransactionIdIsCurrentTransactionId = (\<lambda>x. False),
           TransactionIdDidCommit = (\<lambda>x. x = 100),
           TransactionIdIsInProgress = (\<lambda>x. False)\<rparr>
          (\<lambda>r. \<lparr>xmin = 100, xmax = 0, cid = 0\<rparr>) 0
          \<lparr>snap_xmin = 100, snap_xmax = 101, snap_xip = [100], curcid = 0\<rparr>)
   \<and> fst (gstoreCheckVisibilityForRead
          \<lparr>TransactionIdIsCurrentTransactionId = (\<lambda>x. x = 100),
           TransactionIdDidCommit = (\<lambda>x. False),
           TransactionIdIsInProgress = (\<lambda>x. x = 100)\<rparr>
          (\<lambda>r. \<lparr>xmin = 100, xmax = 0, cid = 1\<rparr>) 0
          \<lparr>snap_xmin = 100, snap_xmax = 101, snap_xip = [], curcid = 2\<rparr>)"
proof -
  let ?row = "\<lambda>c. (\<lambda>r :: nat. \<lparr>xmin = 100, xmax = 0, cid = c\<rparr>)"
  let ?running = "\<lparr>TransactionIdIsCurrentTransactionId = (\<lambda>x :: TransactionId. False),
           TransactionIdDidCommit = (\<lambda>x :: TransactionId. False),
           TransactionIdIsInProgress = (\<lambda>x :: TransactionId. x = 100)\<rparr>"
  let ?committed = "\<lparr>TransactionIdIsCurrentTransactionId = (\<lambda>x :: TransactionId. False),
           TransactionIdDidCommit = (\<lambda>x :: TransactionId. x = 100),
           TransactionIdIsInProgress = (\<lambda>x :: TransactionId. False)\<rparr>"
  let ?own = "\<lparr>TransactionIdIsCurrentTransactionId = (\<lambda>x :: TransactionId. x = 100),
           TransactionIdDidCommit = (\<lambda>x :: TransactionId. False),
           TransactionIdIsInProgress = (\<lambda>x :: TransactionId. x = 100)\<rparr>"
  let ?snap = "\<lambda>l c. \<lparr>snap_xmin = 100, snap_xmax = 101, snap_xip = l, curcid = c\<rparr>"
  have a: "fst (gstoreCheckVisibilityForRead ?running (?row 0) 0 (?snap [100] 0)) = False"
    using C3_read_visibility_by_commit_status
      [of "?row 0" 0 ?running "?snap [100] 0", THEN conjunct1]
    by (simp add: FrozenTransactionId_def)
  have b: "fst (gstoreCheckVisibilityForRead ?committed (?row 0) 0 (?snap [100] 0))"
    using C3_read_visibility_by_commit_status
      [of "?row 0" 0 ?committed "?snap [100] 0", THEN conjunct2, THEN conjunct1]
    by (simp add: FrozenTransactionId_def InvalidTransactionId_def)
  have c: "fst (gstoreCheckVisibilityForRead ?own (?row 1) 0 (?snap [] 2))"
    using C3_read_visibility_by_commit_status
      [of "?row 1" 0 ?own "?snap [] 2", THEN conjunct2, THEN conjunct2]
    by (simp add: FrozenTransactionId_def InvalidTransactionId_def)
  from a b c show ?thesis by simp
qed

text \<open>
  The first read after a deleter aborted: \<^verbatim>\<open>xmax\<close> is reset to invalid, but the
  verdict of that read is "not visible"; the next read of the same row sees it.
\<close>

lemma read_check_after_deleter_aborted:
  "uu_gstoreCheckVisibilityForRead
      \<lparr>TransactionIdIsCurrentTransactionId = (\<lambda>x. False),
       TransactionIdDidCommit = (\<lambda>x. False),
       TransactionIdIsInProgress = (\<lambda>x. False)\<rparr>
      \<lparr>xmin = 2, xmax = 100, cid = 0\<rparr> 5
   = (False, \<lparr>xmin = 2, xmax = 0, cid = 0\<rparr>)
   \<and> uu_gstoreCheckVisibilityForRead
      \<lparr>TransactionIdIsCurrentTransactionId = (\<lambda>x. False),
       TransactionIdDidCommit = (\<lambda>x. False),
       TransactionIdIsInProgress = (\<lambda>x. False)\<rparr>
      \<lparr>xmin = 2, xmax = 0, cid = 0\<rparr> 5
   = (True, \<lparr>xmin = 2, xmax = 0, cid = 0\<rparr>)"
  by (simp add: uu_gstoreCheckVisibilityForRead_def read_xmax_part_def
      InvalidTransactionId_def FrozenTransactionId_def)

section \<open>Properties of the primary-key lookup\<close>

lemma unat_ucast_32_64: "unat (ucast (x :: 32 word) :: 64 word) = unat x"
proof -
  have "unat x < 2 ^ 32" using unsigned_less [of x] by simp
  then show ?thesis by (simp add: unsigned_ucast_eq take_bit_eq_mod)
qed

lemma chain_walk_out_of_range:
  assumes "pointer_after n hash_index fetch eq key_value rowid = Some p"
    and "hi_nrooms hash_index \<le> ucast p"
    and "n \<le> fuel"
  shows "fst (chain_walk fuel hash_index fetch eq key_value rowid reads) = Some UINT_MAX"
  using assms
proof (induction n arbitrary: fuel rowid reads)
  case 0
  then show ?case by (cases fuel) auto
next
  case (Suc n)
  then obtain fuel' where fuel: "fuel = Suc fuel'" and le: "n \<le> fuel'"
    by (cases fuel) auto
  from Suc.prems(1) have live: "rowid \<noteq> UINT_MAX" "\<not> hi_nrooms hash_index \<le> ucast rowid"
    "\<not> key_matches fetch eq key_value rowid"
    and next_ptr: "pointer_after n hash_index fetch eq key_value
                     (rowmap hash_index (unat rowid)) = Some p"
    by (auto split: if_splits)
  from Suc.IH [OF next_ptr Suc.prems(2) le] live show ?case
    by (simp add: fuel)
qed

lemma chain_walk_reads_in_range:
  assumes "\<forall>r \<in> set reads. r < unat (hi_nrooms hash_index)"
  shows "\<forall>r \<in> set (snd (chain_walk fuel hash_index fetch eq key_value rowid reads)).
           r < unat (hi_nrooms hash_index)"
  using assms
proof (induction fuel arbitrary: rowid reads)
  case 0
  have "unat rowid < unat (hi_nrooms hash_index)"
    if "\<not> hi_nrooms hash_index \<le> ucast rowid"
    using that by (simp add: word_le_nat_alt unat_ucast_32_64 not_le)
  with 0 show ?case by auto
next
  case (Suc fuel)
  have in_range: "unat rowid < unat (hi_nrooms hash_index)"
    if "\<not> hi_nrooms hash_index \<le> ucast rowid"
    using that by (simp add: word_le_nat_alt unat_ucast_32_64 not_le)
  show ?case
  proof (cases "rowid = UINT_MAX \<or> hi_nrooms hash_index \<le> ucast rowid
                \<or> key_matches fetch eq key_value rowid")
    case True
    with Suc.prems in_range show ?thesis by auto
  next
    case False
    then have "\<forall>r \<in> set (reads @ [unat rowid]). r < unat (hi_nrooms hash_index)"
      using Suc.prems in_range by auto
    from Suc.IH [OF this] False show ?thesis by simp
  qed
qed

text \<open>
  C10: when a pointer met while walking a bucket's chain (the head of the bucket, the
  entry after \<open>last_rowid\<close>, or any later "next" entry) is at or beyond the row
  capacity, \<^verbatim>\<open>lookupGpuStorePrimaryKey\<close> returns \<^verbatim>\<open>UINT_MAX\<close> (not found) without
  following it, and every row the walk has read lies below the capacity.
\<close>

theorem C10_lookup_out_of_range_pointer_not_found:
  assumes "hi_nslots hash_index \<noteq> 0"
    and "pointer_after n hash_index fetch eq key_value
           (lookup_start hash_index (hash key_value) last_rowid) = Some p"
    and "hi_nrooms hash_index \<le> ucast p"
    and "n \<le> fuel"
  shows "fst (lookupGpuStorePrimaryKey fuel hash_index fetch eq hash key_value last_rowid)
           = Some UINT_MAX
       \<and> list_all (\<lambda>r. r < unat (hi_nrooms hash_index))
           (snd (lookupGpuStorePrimaryKey fuel hash_index fetch eq hash key_value last_rowid))"
proof -
  let ?start = "lookup_start hash_index (hash key_value) last_rowid"
  obtain res reads where walk:
    "chain_walk fuel hash_index fetch eq key_value ?start [] = (res, reads)"
    by (cases "chain_walk fuel hash_index fetch eq key_value ?start []")
  from chain_walk_out_of_range [OF assms(2,3,4), of "[]"] walk
  have res: "res = Some UINT_MAX" by simp
  have "\<forall>r \<in> set (snd (chain_walk fuel hash_index fetch eq key_value ?start [])).
          r < unat (hi_nrooms hash_index)"
    by (rule chain_walk_reads_in_range) simp
  with walk have reads: "list_all (\<lambda>r. r < unat (hi_nrooms hash_index)) reads"
    by (simp add: list_all_iff)
  from assms(1) walk res reads show ?thesis
    by (simp add: lookupGpuStorePrimaryKey_def trailing_while_def)
qed

theorem C10_lookup_witness:
  "fst (lookupGpuStorePrimaryKey 5
          \<lparr>hi_nrooms = 4, hi_nslots = 2,
           hi_slots = (\<lambda>i. if i = 0 then 1 else if i = 3 then 9 else UINT_MAX)\<rparr>
          (\<lambda>r. (0 :: nat, False)) (=) (\<lambda>k. 0) 5 UINT_MAX) = Some UINT_MAX
   \<and> list_all (\<lambda>r. r < 4)
        (snd (lookupGpuStorePrimaryKey 5
          \<lparr>hi_nrooms = 4, hi_nslots = 2,
           hi_slots = (\<lambda>i. if i = 0 then 1 else if i = 3 then 9 else UINT_MAX)\<rparr>
          (\<lambda>r. (0 :: nat, False)) (=) (\<lambda>k. 0) 5 UINT_MAX))"
proof -
  let ?hi = "\<lparr>hi_nrooms = 4, hi_nslots = 2,
           hi_slots = (\<lambda>i. if i = 0 then 1 else if i = 3 then 9 else UINT_MAX)\<rparr>"
  let ?fetch = "\<lambda>r :: nat. (0 :: nat, False)"
  have start: "lookup_start ?hi ((\<lambda>k. 0) (5 :: nat)) UINT_MAX = 1"
    by (simp add: lookup_start_def)
  have ptr: "pointer_after (Suc 0) ?hi ?fetch (=) 5
               (lookup_start ?hi ((\<lambda>k. 0) (5 :: nat)) UINT_MAX) = Some 9"
    unfolding start by (simp add: UINT_MAX_def key_matches_def rowmap_def word_le_nat_alt)
  have a: "hi_nslots ?hi \<noteq> 0" by simp
  have b: "hi_nrooms ?hi \<le> ucast (9 :: cl_uint)" by simp
  have c: "Suc 0 \<le> 5" by simp
  from C10_lookup_out_of_range_pointer_not_found [OF a ptr b c]
  show ?thesis by simp
qed

text \<open>
  A hit ends the walk with a row id other than \<^verbatim>\<open>UINT_MAX\<close>, and the trailing
  \<^verbatim>\<open>while\<close> then never ends: with a matching key in the first row of the chain the
  call returns for no amount of fuel.
\<close>

lemma lookup_hit_does_not_return:
  "fst (lookupGpuStorePrimaryKey fuel
          \<lparr>hi_nrooms = 4, hi_nslots = 2, hi_slots = (\<lambda>i. 1)\<rparr>
          (\<lambda>r. (5 :: nat, False)) (=) (\<lambda>k. 0) 5 UINT_MAX) = None"
  by (cases fuel)
    (simp_all add: lookupGpuStorePrimaryKey_def lookup_start_def key_matches_def
      trailing_while_def UINT_MAX_def word_le_nat_alt)

section \<open>Properties of the row-id map\<close>

lemma unat_and_3f: "unat ((n :: cl_uint) AND 0x3f) < 64"
proof -
  have "unat (n AND 0x3f) \<le> unat (0x3f :: cl_uint)"
    by (rule word_and_le1 [THEN word_le_nat_alt [THEN iffD1]])
  then show ?thesis by simp
qed

lemma release_test_iff:
  "release_test base bottom rowid
     \<longleftrightarrow> \<not> bit (base (bottom + unat (drop_bit 6 rowid))) (unat (rowid AND 0x3f))"
proof -
  let ?w = "base (bottom + unat (drop_bit 6 rowid))"
  let ?n = "unat (rowid AND 0x3f)"
  have n: "?n < 64" by (rule unat_and_3f)
  have "(?w AND ulbit ?n = 0) \<longleftrightarrow> \<not> bit ?w ?n"
  proof
    assume z: "?w AND ulbit ?n = 0"
    show "\<not> bit ?w ?n"
    proof
      assume "bit ?w ?n"
      with n have "bit (?w AND ulbit ?n) ?n" by (simp add: bit_and_iff bit_ulbit)
      with z show False by simp
    qed
  next
    assume "\<not> bit ?w ?n"
    then show "?w AND ulbit ?n = 0"
      by (intro bit_word_eqI) (auto simp: bit_and_iff bit_ulbit)
  qed
  then show ?thesis by (simp add: release_test_def)
qed

lemma bit_release_clear:
  "bit (release_clear base i n j) m
     \<longleftrightarrow> bit (base j) m \<and> \<not> (j = i \<and> m = unat (n AND 0x3f))"
  using unat_and_3f [of n]
  by (auto simp: release_clear_def bit_and_iff bit_not_iff bit_ulbit dest: bit_imp_le_length)

lemma upt_small: "[0..<1] = [0]" "[0..<2] = [0, 1]" "[0..<3] = [0, 1, 2]" "[0..<4] = [0, 1, 2, 3]"
  by code_simp+

lemma rowid_path_1:
  "nrooms \<le> 256 \<Longrightarrow>
   rowid_path nrooms rowid = [(unat (drop_bit 6 rowid), unat (rowid AND 0x3f))]"
  by (simp add: rowid_path_def rowid_map_depth_def level_offset_def upt_small)

lemma rowid_path_2:
  "\<not> nrooms \<le> 256 \<Longrightarrow> nrooms \<le> 65536 \<Longrightarrow>
   rowid_path nrooms rowid =
     [(unat (drop_bit 14 rowid), unat (drop_bit 8 rowid AND 0x3f)),
      (4 + unat (drop_bit 6 rowid), unat (rowid AND 0x3f))]"
  by (simp add: rowid_path_def rowid_map_depth_def level_offset_def upt_small)

lemma rowid_path_3:
  "\<not> nrooms \<le> 256 \<Longrightarrow> \<not> nrooms \<le> 65536 \<Longrightarrow> nrooms \<le> 16777216 \<Longrightarrow>
   rowid_path nrooms rowid =
     [(unat (drop_bit 22 rowid), unat (drop_bit 16 rowid AND 0x3f)),
      (4 + unat (drop_bit 14 rowid), unat (drop_bit 8 rowid AND 0x3f)),
      (4 + 1024 + unat (drop_bit 6 rowid), unat (rowid AND 0x3f))]"
  by (simp add: rowid_path_def rowid_map_depth_def level_offset_def upt_small)

lemma rowid_path_4:
  "\<not> nrooms \<le> 256 \<Longrightarrow> \<not> nrooms \<le> 65536 \<Longrightarrow> \<not> nrooms \<le> 16777216 \<Longrightarrow>
   rowid_path nrooms rowid =
     [(unat (drop_bit 30 rowid), unat (drop_bit 24 rowid AND 0x3f)),
      (4 + unat (drop_bit 22 rowid), unat (drop_bit 16 rowid AND 0x3f)),
      (4 + 1024 + unat (drop_bit 14 rowid), unat (drop_bit 8 rowid AND 0x3f)),
      (4 + 1024 + 262144 + unat (drop_bit 6 rowid), unat (rowid AND 0x3f))]"
  by (simp add: rowid_path_def rowid_map_depth_def level_offset_def upt_small)

lemma leaf_bit_cases:
  "leaf_bit base nrooms rowid =
     (\<not> release_test base
          (if nrooms \<le> 256 then 0 else if nrooms \<le> 65536 then 4
           else if nrooms \<le> 16777216 then 4 + 1024 else 4 + 1024 + 262144) rowid)"
  by (simp add: leaf_bit_def release_test_iff rowid_map_depth_def level_offset_def)

lemma release_not_allocated:
  "\<not> (rowid < nrooms \<and> leaf_bit base nrooms rowid) \<Longrightarrow>
   uu_gstoreFdwReleaseRowId base nrooms rowid = (False, base)"
  by (cases "nrooms \<le> 256"; cases "nrooms \<le> 65536"; cases "nrooms \<le> 16777216")
    (auto simp add: uu_gstoreFdwReleaseRowId_def leaf_bit_cases)

lemma release_allocated:
  assumes "rowid < nrooms" "leaf_bit base nrooms rowid"
  shows "fst (uu_gstoreFdwReleaseRowId base nrooms rowid)"
    and "bit (snd (uu_gstoreFdwReleaseRowId base nrooms rowid) i) n
           \<longleftrightarrow> bit (base i) n \<and> (i, n) \<notin> set (rowid_path nrooms rowid)"
proof -
  consider (l1) "nrooms \<le> 256"
    | (l2) "\<not> nrooms \<le> 256" "nrooms \<le> 65536"
    | (l3) "\<not> nrooms \<le> 256" "\<not> nrooms \<le> 65536" "nrooms \<le> 16777216"
    | (l4) "\<not> nrooms \<le> 256" "\<not> nrooms \<le> 65536" "\<not> nrooms \<le> 16777216"
    by blast
  then have "fst (uu_gstoreFdwReleaseRowId base nrooms rowid)
      \<and> (bit (snd (uu_gstoreFdwReleaseRowId base nrooms rowid) i) n
           \<longleftrightarrow> bit (base i) n \<and> (i, n) \<notin> set (rowid_path nrooms rowid))"
  proof cases
    case l1
    with assms show ?thesis
      by (auto simp add: uu_gstoreFdwReleaseRowId_def leaf_bit_cases rowid_path_1 bit_release_clear)
  next
    case l2
    with assms show ?thesis
      by (auto simp add: uu_gstoreFdwReleaseRowId_def leaf_bit_cases rowid_path_2 bit_release_clear
          drop_bit_drop_bit)
  next
    case l3
    with assms show ?thesis
      by (auto simp add: uu_gstoreFdwReleaseRowId_def leaf_bit_cases rowid_path_3 bit_release_clear
          drop_bit_drop_bit)
  next
    case l4
    with assms show ?thesis
      by (auto simp add: uu_gstoreFdwReleaseRowId_def leaf_bit_cases rowid_path_4 bit_release_clear
          drop_bit_drop_bit)
  qed
  then show "fst (uu_gstoreFdwReleaseRowId base nrooms rowid)"
    and "bit (snd (uu_gstoreFdwReleaseRowId base nrooms rowid) i) n
           \<longleftrightarrow> bit (base i) n \<and> (i, n) \<notin> set (rowid_path nrooms rowid)"
    by simp_all
qed


text \<open>
  Relative to the layout of \<^verbatim>\<open>gstoreFdwRowIdMapSize\<close>: for a row id below the
  capacity whose leaf bit is set, \<^verbatim>\<open>__gstoreFdwReleaseRowId\<close> answers true and clears
  exactly the bits on the row id's path (the leaf bit and the summary bit of every
  level above it), whatever the summary bits were; when that leaf bit is clear or the
  row id is not below the capacity, it answers false and leaves the bitmap as it was.
\<close>

lemma release_clears_path:
  "(rowid < nrooms \<and> leaf_bit base nrooms rowid
      \<longrightarrow> fst (uu_gstoreFdwReleaseRowId base nrooms rowid)
          \<and> (\<forall>i n. bit (snd (uu_gstoreFdwReleaseRowId base nrooms rowid) i) n
                 \<longleftrightarrow> bit (base i) n \<and> (i, n) \<notin> set (rowid_path nrooms rowid)))
   \<and> (\<not> (rowid < nrooms \<and> leaf_bit base nrooms rowid)
      \<longrightarrow> uu_gstoreFdwReleaseRowId base nrooms rowid = (False, base))"
  using release_allocated [of rowid nrooms base] release_not_allocated [of rowid nrooms base]
  by blast

text \<open>
  C8: for every allocated row id, release clears its leaf bit and every summary bit
  on its path and answers true.  For a capacity above 65536 the leaf level of
  \<^verbatim>\<open>__gstoreFdwReleaseRowId\<close> (word 1028 for three levels) is not the one into which
  \<^verbatim>\<open>__gstoreFdwAllocateRowId\<close> sets the bit of a row id it returns (word 1032).  On an
  empty map of 65537 rows, allocate from 0 returns row id 0 and sets its bit; the
  release of row id 0 that follows answers false, and the bit that allocate set is
  still set afterwards.
\<close>

theorem C8_release_refuses_allocated_row_id:
  "(let a = gstoreFdwAllocateRowId (\<lambda>i. 0) 65537 0;
        r = uu_gstoreFdwReleaseRowId (snd a) 65537 0
    in (fst a, alloc_leaf_bit (snd a) 65537 0, fst r, alloc_leaf_bit (snd r) 65537 0))
   = (0, True, False, True)"
  by code_simp

text \<open>
  C4: no two calls of allocate return the same row id without a release of that row
  id in between.  For a capacity above 65536 the allocator descends to a leaf level
  that starts four words behind the one \<^verbatim>\<open>__gstoreFdwReleaseRowId\<close> and
  \<^verbatim>\<open>gstoreFdwRowIdMapSize\<close> use (at depth 1, \<^verbatim>\<open>next = base + 4 + (4 << 8)\<close> is taken
  from a \<^verbatim>\<open>base\<close> that already points behind the first level).  On an empty map of
  65537 rows: allocate from 0 returns 0, allocate from 256 returns 256, releasing 256
  succeeds and clears the bit that allocate set for row 0, and allocate from 0 returns
  0 again.
\<close>

theorem C4_row_id_returned_twice:
  "(let a1 = gstoreFdwAllocateRowId (\<lambda>i. 0) 65537 0;
        a2 = gstoreFdwAllocateRowId (snd a1) 65537 256;
        r = uu_gstoreFdwReleaseRowId (snd a2) 65537 256;
        a3 = gstoreFdwAllocateRowId (snd r) 65537 0
    in (fst a1, fst a2, fst r, fst a3)) = (0, 256, True, 0)"
  by code_simp

section \<open>The allocator returns free row ids at or above the minimum\<close>











definition bits_grow :: "rowid_mem \<Rightarrow> rowid_mem \<Rightarrow> bool" where
  "bits_grow mem mem' = (\<forall>a i. bit (mem a) i \<longrightarrow> bit (mem' a) i)"

definition alloc_post ::
  "cl_uint \<Rightarrow> nat \<Rightarrow> nat \<Rightarrow> cl_uint \<Rightarrow> nat \<Rightarrow> rowid_mem \<Rightarrow> cl_uint \<Rightarrow> rowid_mem \<Rightarrow> bool" where
  "alloc_post nrooms lv lf offset lo mem r mem' =
     (bits_grow mem mem' \<and>
      (r \<noteq> UINT_MAX \<longrightarrow>
         unat r < unat nrooms \<and> unat r div 2 ^ (8 * lv) = unat offset
         \<and> lo \<le> unat r mod 2 ^ (8 * lv)
         \<and> \<not> bit (mem (lf + unat r div 64)) (unat r mod 64)
         \<and> bit (mem' (lf + unat r div 64)) (unat r mod 64)))"







lemma alloc_post_grow:
  assumes "alloc_post nrooms lv lf offset lo mem r mem1" "bits_grow mem1 mem'"
  shows "alloc_post nrooms lv lf offset lo mem r mem'"
  using assms unfolding alloc_post_def bits_grow_def by blast










lemma four_Suc: "(4 :: nat) = Suc (Suc (Suc (Suc 0)))"
  by simp

lemma alloc_rec_4:
  "alloc_rec 4 nrooms 0 =
     alloc_level (alloc_level (alloc_level (alloc_level (alloc_rec 0 nrooms 4) nrooms 3)
        nrooms 2) nrooms 1) nrooms 0"
  by (simp add: four_Suc numeral_3_eq_3 numeral_2_eq_2)






section \<open>Properties of replay\<close>

lemma expand_extra_indexes:
  "expand_extra offs base_mmap r_log = Inr base_mmap'
   \<Longrightarrow> bf_rowid_map base_mmap' = bf_rowid_map base_mmap
       \<and> bf_hash_index base_mmap' = bf_hash_index base_mmap"
  by (auto simp add: expand_extra_def Let_def split: if_splits)

lemma redo_loop_indexes:
  "redo_loop fuel offs natts redo_mmap redo_mmap_sz redo_pos base_mmap
     = Some (Inr (end_pos, base_mmap'))
   \<Longrightarrow> bf_rowid_map base_mmap' = bf_rowid_map base_mmap
       \<and> bf_hash_index base_mmap' = bf_hash_index base_mmap"
proof (induction fuel arbitrary: redo_pos base_mmap)
  case 0
  then show ?case by simp
next
  case (Suc fuel)
  show ?case
  proof (cases "(redo_pos + off_common_data offs) mod 2 ^ 64 < redo_mmap_sz")
    case False
    with Suc.prems show ?thesis by simp
  next
    case inside: True
    show ?thesis
    proof (cases "is_row_log (redo_at redo_mmap redo_pos)")
      case True
      show ?thesis
      proof (cases "expand_extra offs base_mmap (redo_at redo_mmap redo_pos)")
        case (Inl err)
        with Suc.prems inside True show ?thesis by simp
      next
        case (Inr b)
        from Suc.prems inside True Inr
        have "redo_loop fuel offs natts redo_mmap redo_mmap_sz
                ((redo_pos + unat (log_length (redo_at redo_mmap redo_pos))) mod 2 ^ 64)
                (b\<lparr>bf_schema := apply_row_log natts (bf_schema b) (redo_at redo_mmap redo_pos)\<rparr>)
              = Some (Inr (end_pos, base_mmap'))"
          by simp
        from Suc.IH [OF this] expand_extra_indexes [OF Inr] show ?thesis by simp
      qed
    next
      case False
      with Suc.prems inside Suc.IH show ?thesis
        by (cases "log_type (redo_at redo_mmap redo_pos) = GSTORE_TX_LOG__COMMIT") auto
    qed
  qed
qed

text \<open>
  Replay returns the row-id map and the hash index as it found them: whatever the
  log holds, no bit and no slot of either is written.
\<close>

lemma replay_keeps_indexes:
  assumes "uu_ApplyRedoLogMain fuel offs natts redo_mmap redo_mmap_sz base_mmap
             = Some (Inr (end_pos, base_mmap'))"
  shows "bf_rowid_map base_mmap' = bf_rowid_map base_mmap"
    and "bf_hash_index base_mmap' = bf_hash_index base_mmap"
  using assms redo_loop_indexes
  by (auto simp add: uu_ApplyRedoLogMain_def uu_rebuildRowIdMap_def uu_rebuildHashIndex_def
      split: option.splits sum.splits)

text \<open>
  C1: after an unclean shutdown, recovery replays the log and then rebuilds the
  row-id map and the hash index, so that both reflect the rows of the replayed
  store.  The code calls \<^verbatim>\<open>__rebuildRowIdMap\<close> and \<^verbatim>\<open>__rebuildHashIndex\<close> under the
  comment "Rebuild indexes", but both bodies are empty.  On a store of four rows
  with an empty row-id map and a log of one INSERT for row 0, replay writes the
  row (its \<^verbatim>\<open>xmin\<close> is 100, its \<^verbatim>\<open>xmax\<close> invalid) and leaves the row-id map
  empty: row id 0 is not marked allocated, releasing it is refused, and the next
  allocation hands out row id 0 again.
\<close>

theorem C1_replay_leaves_row_id_map_stale:
  "(case uu_ApplyRedoLogMain (Suc (Suc 0)) \<lparr>off_common_data = 8, off_row_htup = 16\<rparr> 1
           \<lparr>checkpoint_offset = 24,
            redo_at = (\<lambda>pos. if pos = 24
               then \<lparr>log_type = GSTORE_TX_LOG__INSERT, log_length = 64, log_rowid = 0,
                     htup_xmin = 100, htup_xmax = 0, htup_cid = 0, htup_ctid = 0,
                     htup_values = (\<lambda>j. Some [1]), update_mask = (\<lambda>j. False)\<rparr>
               else \<lparr>log_type = GSTORE_TX_LOG__OTHER 0, log_length = 0, log_rowid = 0,
                     htup_xmin = 0, htup_xmax = 0, htup_cid = 0, htup_ctid = 0,
                     htup_values = (\<lambda>j. None), update_mask = (\<lambda>j. False)\<rparr>)\<rparr>
           4096
           \<lparr>bf_size = 8192,
            bf_schema = \<lparr>kds_nrooms = 4, kds_nitems = 0, kds_has_varlena = False,
               kds_usage = 0, kds_extra_hoffset = 0, kds_extra_hlength = 0,
               kds_attlen = (\<lambda>j. 4), kds_cells = (\<lambda>j rowid. None),
               kds_sysattr = (\<lambda>rowid. \<lparr>xmin = 0, xmax = 0, cid = 0\<rparr>)\<rparr>,
            bf_rowid_map = (\<lambda>i. 0), bf_hash_index = None\<rparr> of
      Some (Inr (redo_pos, base_mmap)) \<Rightarrow>
        redo_pos = 88
        \<and> kds_cells (bf_schema base_mmap) 0 0 = Some [1]
        \<and> kds_sysattr (bf_schema base_mmap) 0 = \<lparr>xmin = 100, xmax = 0, cid = 0\<rparr>
        \<and> bf_hash_index base_mmap = None
        \<and> \<not> alloc_leaf_bit (bf_rowid_map base_mmap) 4 0
        \<and> \<not> fst (uu_gstoreFdwReleaseRowId (bf_rowid_map base_mmap) 4 0)
        \<and> fst (gstoreFdwAllocateRowId (bf_rowid_map base_mmap) 4 0) = 0
    | _ \<Rightarrow> False)"
  apply (simp add: uu_ApplyRedoLogMain_def is_row_log_def expand_extra_def apply_row_log_def
      uu_ApplyRedoLogInsert_def store_column_def deformed_def KDS_store_datum_column_def
      uu_rebuildHashIndex_def uu_rebuildRowIdMap_def InvalidTransactionId_def)
  apply code_simp
  done

text \<open>
  The walk of \<^verbatim>\<open>__ApplyRedoLogMain\<close>: from any position, the loop applies the row
  records that the walk meets, in log order and each after the expansion step,
  skips COMMIT records and returns the position at which the walk ends; an error
  of the expansion step ends it at once.
\<close>

lemma redo_loop_walk:
  "redo_walk fuel offs redo_mmap redo_mmap_sz redo_pos = Some (rs, end_pos)
   \<Longrightarrow> redo_loop fuel offs natts redo_mmap redo_mmap_sz redo_pos base_mmap
       = Some (case replay_records offs natts rs base_mmap of
                 Inl err \<Rightarrow> Inl err
               | Inr base_mmap' \<Rightarrow> Inr (end_pos, base_mmap'))"
proof (induction fuel arbitrary: redo_pos base_mmap rs)
  case 0
  then show ?case by simp
next
  case (Suc fuel)
  show ?case
  proof (cases "(redo_pos + off_common_data offs) mod 2 ^ 64 < redo_mmap_sz")
    case False
    with Suc.prems show ?thesis by auto
  next
    case inside: True
    show ?thesis
    proof (cases "is_row_log (redo_at redo_mmap redo_pos)")
      case True
      with Suc.prems inside obtain rs' where
        walk: "redo_walk fuel offs redo_mmap redo_mmap_sz
                 ((redo_pos + unat (log_length (redo_at redo_mmap redo_pos))) mod 2 ^ 64)
               = Some (rs', end_pos)"
        and rs: "rs = redo_at redo_mmap redo_pos # rs'"
        by (auto split: option.splits)
      show ?thesis
      proof (cases "expand_extra offs base_mmap (redo_at redo_mmap redo_pos)")
        case (Inl err)
        with inside True rs show ?thesis by simp
      next
        case (Inr b)
        with inside True rs Suc.IH [OF walk] show ?thesis by simp
      qed
    next
      case False
      with Suc.prems inside Suc.IH show ?thesis
        by (cases "log_type (redo_at redo_mmap redo_pos) = GSTORE_TX_LOG__COMMIT") auto
    qed
  qed
qed

text \<open>
  The walk ends, without an error, at the first record whose type is none of the
  four known ones.
\<close>

lemma redo_loop_unknown_tag:
  assumes "log_type (redo_at redo_mmap redo_pos) = GSTORE_TX_LOG__OTHER t"
  shows "redo_loop (Suc fuel) offs natts redo_mmap redo_mmap_sz redo_pos base_mmap
           = Some (Inr (redo_pos, base_mmap))"
  using assms by (simp add: is_row_log_def)

text \<open>
  C6: replay expands the out-of-line region first when a variable-length payload
  would overflow it.  The code computes the size the region needs (payload plus
  usage, plus 64MB) and passes it to \<^verbatim>\<open>posix_fallocate\<close> as the length of the whole
  file, although the region starts \<^verbatim>\<open>offsetof(GpuStoreBaseFileHead, schema) +
  extra_hoffset\<close> bytes into the file.  On a base file of 129MB whose region is the
  last 1MB, with 1048568 bytes of it used, an INSERT record with a payload of 4096
  bytes needs 1052664 bytes; the file is already longer than the 68161536 bytes
  asked for, so neither the file nor the region grows, and the record is applied to
  a region that is still too short.
\<close>

theorem C6_extra_region_not_expanded:
  "(case uu_ApplyRedoLogMain (Suc (Suc 0)) \<lparr>off_common_data = 8, off_row_htup = 16\<rparr> 1
           \<lparr>checkpoint_offset = 24,
            redo_at = (\<lambda>pos. if pos = 24
               then \<lparr>log_type = GSTORE_TX_LOG__INSERT, log_length = 4112, log_rowid = 0,
                     htup_xmin = 100, htup_xmax = 0, htup_cid = 0, htup_ctid = 0,
                     htup_values = (\<lambda>j. Some [1, 2, 3]), update_mask = (\<lambda>j. False)\<rparr>
               else \<lparr>log_type = GSTORE_TX_LOG__OTHER 0, log_length = 0, log_rowid = 0,
                     htup_xmin = 0, htup_xmax = 0, htup_cid = 0, htup_ctid = 0,
                     htup_values = (\<lambda>j. None), update_mask = (\<lambda>j. False)\<rparr>)\<rparr>
           8192
           \<lparr>bf_size = 135266304,
            bf_schema = \<lparr>kds_nrooms = 4, kds_nitems = 0, kds_has_varlena = True,
               kds_usage = 1048568, kds_extra_hoffset = 134217640,
               kds_extra_hlength = 1048576,
               kds_attlen = (\<lambda>j. - 1), kds_cells = (\<lambda>j rowid. None),
               kds_sysattr = (\<lambda>rowid. \<lparr>xmin = 0, xmax = 0, cid = 0\<rparr>)\<rparr>,
            bf_rowid_map = (\<lambda>i. 0), bf_hash_index = None\<rparr> of
      Some (Inr (redo_pos, base_mmap)) \<Rightarrow>
        redo_pos = 4136
        \<and> kds_cells (bf_schema base_mmap) 0 0 = Some [1, 2, 3]
        \<and> bf_size base_mmap = 135266304
        \<and> kds_extra_hlength (bf_schema base_mmap) = 1048576
    | _ \<Rightarrow> False)
   \<and> extra_needed \<lparr>off_common_data = 8, off_row_htup = 16\<rparr>
         \<lparr>kds_nrooms = 4, kds_nitems = 0, kds_has_varlena = True,
          kds_usage = 1048568, kds_extra_hoffset = 134217640,
          kds_extra_hlength = 1048576,
          kds_attlen = (\<lambda>j. - 1), kds_cells = (\<lambda>j rowid. None),
          kds_sysattr = (\<lambda>rowid. \<lparr>xmin = 0, xmax = 0, cid = 0\<rparr>)\<rparr>
         \<lparr>log_type = GSTORE_TX_LOG__INSERT, log_length = 4112, log_rowid = 0,
          htup_xmin = 100, htup_xmax = 0, htup_cid = 0, htup_ctid = 0,
          htup_values = (\<lambda>j. Some [1, 2, 3]), update_mask = (\<lambda>j. False)\<rparr>
       = 1052664"
  by (simp add: uu_ApplyRedoLogMain_def is_row_log_def expand_extra_def extra_needed_def
      PAGE_ALIGN_def PAGE_SIZE_def TYPEALIGN_def offsetof_schema_def apply_row_log_def
      uu_ApplyRedoLogInsert_def store_column_def deformed_def KDS_store_datum_column_def
      uu_rebuildHashIndex_def uu_rebuildRowIdMap_def InvalidTransactionId_def Let_def)

section \<open>Replaying a segment twice\<close>

lemma to_cell_deformed: "to_cell (deformed r j) = htup_values r j"
  by (simp add: to_cell_def deformed_def split: option.splits)

lemma to_cell_fetch: "to_cell (KDS_fetch_datum_column kds j rowid) = kds_cells kds j rowid"
  by (simp add: to_cell_def KDS_fetch_datum_column_def split: option.splits)

lemma store_column_cells:
  "kds_cells (store_column r kds j v) j' rowid =
     (if j' = j \<and> rowid = unat (log_rowid r) then to_cell v else kds_cells kds j' rowid)"
  by (simp add: store_column_def KDS_store_datum_column_def to_cell_def)

lemma store_column_rest:
  "kds_sysattr (store_column r kds j v) = kds_sysattr kds"
  "kds_nrooms (store_column r kds j v) = kds_nrooms kds"
  "kds_nitems (store_column r kds j v) = kds_nitems kds"
  "kds_has_varlena (store_column r kds j v) = kds_has_varlena kds"
  "kds_extra_hoffset (store_column r kds j v) = kds_extra_hoffset kds"
  "kds_extra_hlength (store_column r kds j v) = kds_extra_hlength kds"
  "kds_attlen (store_column r kds j v) = kds_attlen kds"
  "kern_data_store.more (store_column r kds j v) = kern_data_store.more kds"
  by (simp_all add: store_column_def KDS_store_datum_column_def)

lemma store_column_usage:
  "kds_attlen kds j \<noteq> - 1 \<Longrightarrow> kds_usage (store_column r kds j v) = kds_usage kds"
  by (simp add: store_column_def KDS_store_datum_column_def)

lemma update_column_cell:
  "to_cell (update_column r kds j) =
     (if log_type r = GSTORE_TX_LOG__UPDATE \<and> update_mask r j
      then kds_cells kds j (unat (htup_ctid r)) else htup_values r j)"
  by (simp add: update_column_def to_cell_deformed to_cell_fetch)

lemma fold_columns_cells:
  "kds_cells (fold (\<lambda>j k. store_column r k j (update_column r k j)) [0..<n] kds) j rowid =
     (if j < n \<and> rowid = unat (log_rowid r) then to_cell (update_column r kds j)
      else kds_cells kds j rowid)"
proof (induction n arbitrary: j rowid)
  case 0
  then show ?case by simp
next
  case (Suc n)
  show ?case
    by (simp add: store_column_cells update_column_cell Suc.IH less_Suc_eq)
qed

lemma fold_columns_rest:
  "kds_sysattr (fold (\<lambda>j k. store_column r k j (g k j)) js kds) = kds_sysattr kds
   \<and> kds_nrooms (fold (\<lambda>j k. store_column r k j (g k j)) js kds) = kds_nrooms kds
   \<and> kds_nitems (fold (\<lambda>j k. store_column r k j (g k j)) js kds) = kds_nitems kds
   \<and> kds_has_varlena (fold (\<lambda>j k. store_column r k j (g k j)) js kds) = kds_has_varlena kds
   \<and> kds_extra_hoffset (fold (\<lambda>j k. store_column r k j (g k j)) js kds) = kds_extra_hoffset kds
   \<and> kds_extra_hlength (fold (\<lambda>j k. store_column r k j (g k j)) js kds) = kds_extra_hlength kds
   \<and> kds_attlen (fold (\<lambda>j k. store_column r k j (g k j)) js kds) = kds_attlen kds
   \<and> kern_data_store.more (fold (\<lambda>j k. store_column r k j (g k j)) js kds) = kern_data_store.more kds"
  by (induction js arbitrary: kds) (simp_all add: store_column_rest)

lemma fold_columns_usage:
  "\<forall>j\<in>set js. kds_attlen kds j \<noteq> - 1
   \<Longrightarrow> kds_usage (fold (\<lambda>j k. store_column r k j (g k j)) js kds) = kds_usage kds"
  by (induction js arbitrary: kds) (simp_all add: store_column_rest store_column_usage)

lemma insert_columns:
  "log_type r = GSTORE_TX_LOG__INSERT
   \<Longrightarrow> (\<lambda>j k. store_column r k j (deformed r j)) = (\<lambda>j k. store_column r k j (update_column r k j))"
  by (simp add: update_column_def)

lemma apply_row_log_cells:
  "kds_cells (apply_row_log natts kds r) = cells_after natts r (kds_cells kds)"
  by (rule ext, rule ext)
    (simp add: apply_row_log_def uu_ApplyRedoLogInsert_def uu_ApplyRedoLogUpdate_def
      uu_ApplyRedoLogDelete_def Let_def insert_columns fold_columns_cells update_column_cell
      cells_after_def record_write_def)

lemma apply_row_log_sysattr:
  "kds_sysattr (apply_row_log natts kds r) = sysattr_after r (kds_sysattr kds)"
  by (simp add: apply_row_log_def uu_ApplyRedoLogInsert_def uu_ApplyRedoLogUpdate_def
      uu_ApplyRedoLogDelete_def Let_def fold_columns_rest sysattr_after_def)

lemma apply_row_log_rest:
  "kds_nrooms (apply_row_log natts kds r) = kds_nrooms kds
   \<and> kds_nitems (apply_row_log natts kds r) = kds_nitems kds
   \<and> kds_has_varlena (apply_row_log natts kds r) = kds_has_varlena kds
   \<and> kds_extra_hoffset (apply_row_log natts kds r) = kds_extra_hoffset kds
   \<and> kds_extra_hlength (apply_row_log natts kds r) = kds_extra_hlength kds
   \<and> kds_attlen (apply_row_log natts kds r) = kds_attlen kds
   \<and> kern_data_store.more (apply_row_log natts kds r) = kern_data_store.more kds"
  by (simp add: apply_row_log_def uu_ApplyRedoLogInsert_def uu_ApplyRedoLogUpdate_def
      uu_ApplyRedoLogDelete_def Let_def fold_columns_rest)

lemma apply_row_log_usage:
  "\<forall>j<natts. kds_attlen kds j \<noteq> - 1 \<Longrightarrow> kds_usage (apply_row_log natts kds r) = kds_usage kds"
  by (simp add: apply_row_log_def uu_ApplyRedoLogInsert_def uu_ApplyRedoLogUpdate_def
      uu_ApplyRedoLogDelete_def Let_def fold_columns_usage)

text \<open>Replaying a segment, on the rows.\<close>

lemma expand_extra_rows:
  "expand_extra offs base_mmap r = Inr b
   \<Longrightarrow> kds_cells (bf_schema b) = kds_cells (bf_schema base_mmap)
       \<and> kds_sysattr (bf_schema b) = kds_sysattr (bf_schema base_mmap)
       \<and> kds_nitems (bf_schema b) = kds_nitems (bf_schema base_mmap)
       \<and> kds_nrooms (bf_schema b) = kds_nrooms (bf_schema base_mmap)"
  by (auto simp add: expand_extra_def Let_def split: if_splits)

lemma replay_records_rows:
  "replay_records offs natts rs base_mmap = Inr b
   \<Longrightarrow> kds_cells (bf_schema b) = fold (cells_after natts) rs (kds_cells (bf_schema base_mmap))
       \<and> kds_sysattr (bf_schema b) = fold sysattr_after rs (kds_sysattr (bf_schema base_mmap))
       \<and> kds_nitems (bf_schema b) = kds_nitems (bf_schema base_mmap)
       \<and> kds_nrooms (bf_schema b) = kds_nrooms (bf_schema base_mmap)"
proof (induction rs arbitrary: base_mmap)
  case Nil
  then show ?case by simp
next
  case (Cons r rs)
  from Cons.prems obtain b' where
    e: "expand_extra offs base_mmap r = Inr b'"
    and rest: "replay_records offs natts rs
                 (b'\<lparr>bf_schema := apply_row_log natts (bf_schema b') r\<rparr>) = Inr b"
    by (auto split: sum.splits)
  from Cons.IH [OF rest] expand_extra_rows [OF e] show ?case
    by (simp add: apply_row_log_cells apply_row_log_sysattr apply_row_log_rest)
qed

lemma fixed_length_only_iff:
  "fixed_length_only natts kds \<longleftrightarrow> \<not> kds_has_varlena kds \<and> (\<forall>j<natts. kds_attlen kds j \<noteq> - 1)"
  by (auto simp add: fixed_length_only_def list_all_iff)

lemma apply_row_log_fixed:
  assumes "fixed_length_only natts kds"
  shows "apply_row_log natts kds r
           = kds\<lparr>kds_cells := cells_after natts r (kds_cells kds),
                 kds_sysattr := sysattr_after r (kds_sysattr kds)\<rparr>"
  using assms apply_row_log_rest [of natts kds r]
  by (intro kern_data_store.equality)
    (simp_all add: apply_row_log_cells apply_row_log_sysattr apply_row_log_usage
      fixed_length_only_iff)

lemma replay_records_fixed:
  "fixed_length_only natts (bf_schema base_mmap)
   \<Longrightarrow> replay_records offs natts rs base_mmap
       = Inr (base_mmap\<lparr>bf_schema := (bf_schema base_mmap)
                \<lparr>kds_cells := fold (cells_after natts) rs (kds_cells (bf_schema base_mmap)),
                 kds_sysattr := fold sysattr_after rs (kds_sysattr (bf_schema base_mmap))\<rparr>\<rparr>)"
proof (induction rs arbitrary: base_mmap)
  case Nil
  then show ?case by simp
next
  case (Cons r rs)
  from Cons.prems have e: "expand_extra offs base_mmap r = Inr base_mmap"
    by (simp add: expand_extra_def fixed_length_only_iff)
  let ?b = "base_mmap\<lparr>bf_schema := apply_row_log natts (bf_schema base_mmap) r\<rparr>"
  from Cons.prems have f: "fixed_length_only natts (bf_schema ?b)"
    by (simp add: fixed_length_only_iff apply_row_log_rest)
  show ?case
    by (simp add: e Cons.IH [OF f]) (simp add: apply_row_log_fixed [OF Cons.prems])
qed

text \<open>System attributes: every record sets fields to values of its own.\<close>

lemma field_const_id: "field_const f (\<lambda>s. s)"
  by (simp add: field_const_def)

lemma field_const_comp:
  assumes "field_const f op1" and "field_const f op2"
  shows "field_const f (\<lambda>s. op2 (op1 s))"
  unfolding field_const_def
proof
  fix rowid
  from assms(2) consider "\<forall>s. f (op2 s rowid) = f (s rowid)" | "\<exists>v. \<forall>s. f (op2 s rowid) = v"
    by (auto simp add: field_const_def)
  then show "(\<forall>s. f (op2 (op1 s) rowid) = f (s rowid)) \<or> (\<exists>v. \<forall>s. f (op2 (op1 s) rowid) = v)"
  proof cases
    case 1
    with assms(1) show ?thesis by (auto simp add: field_const_def)
  next
    case 2
    then show ?thesis by auto
  qed
qed

lemma field_const_idem:
  "field_const f op \<Longrightarrow> f (op (op s) rowid) = f (op s rowid)"
  by (auto simp add: field_const_def)

lemma sysattr_after_const:
  "field_const xmin (sysattr_after r)" "field_const xmax (sysattr_after r)"
  "field_const cid (sysattr_after r)"
  by (auto simp add: field_const_def sysattr_after_def Let_def)

lemma fold_sysattr_const:
  "field_const xmin (fold sysattr_after rs) \<and> field_const xmax (fold sysattr_after rs)
   \<and> field_const cid (fold sysattr_after rs)"
proof (induction rs)
  case Nil
  then show ?case by (simp add: field_const_def)
next
  case (Cons r rs)
  have "fold sysattr_after (r # rs) = (\<lambda>s. fold sysattr_after rs (sysattr_after r s))"
    by (simp add: fun_eq_iff)
  with Cons field_const_comp [OF sysattr_after_const(1), of "fold sysattr_after rs" r]
    field_const_comp [OF sysattr_after_const(2), of "fold sysattr_after rs" r]
    field_const_comp [OF sysattr_after_const(3), of "fold sysattr_after rs" r]
  show ?case by simp
qed

lemma fold_sysattr_idem:
  "fold sysattr_after rs (fold sysattr_after rs s) = fold sysattr_after rs s"
proof
  fix rowid
  from fold_sysattr_const [of rs]
  show "fold sysattr_after rs (fold sysattr_after rs s) rowid = fold sysattr_after rs s rowid"
    by (intro GstoreFdwSysattr.equality) (simp_all add: field_const_idem)
qed

text \<open>Cells: a second replay reads nothing that the first one changed.\<close>

lemma written_by_Cons:
  "D - written_by natts [r] - written_by natts rs = D - written_by natts (r # rs)"
  "written_by natts (r # rs) - written_by natts [r] \<subseteq> written_by natts rs"
  by (auto simp add: written_by_def)

lemma reads_outside_mono:
  "reads_outside natts D rs \<Longrightarrow> D' \<subseteq> D \<Longrightarrow> reads_outside natts D' rs"
proof (induction rs arbitrary: D D')
  case Nil
  then show ?case by simp
next
  case (Cons r rs)
  from Cons.prems have "reads_outside natts (D - written_by natts [r]) rs"
    and "D' - written_by natts [r] \<subseteq> D - written_by natts [r]"
    by auto
  from Cons.IH [OF this] Cons.prems show ?case by auto
qed

lemma record_write_copy:
  "record_write natts r j rowid = copy_cell oldid
   \<Longrightarrow> j < natts \<and> rowid = unat (log_rowid r) \<and> oldid \<noteq> rowid"
  by (auto simp add: record_write_def split: if_splits)

lemma record_write_row:
  "record_write natts r j rowid \<noteq> keep_cell \<Longrightarrow> j < natts \<and> rowid = unat (log_rowid r)"
  by (auto simp add: record_write_def split: if_splits)

lemma copy_sources_kept_reads_outside:
  "copy_sources_kept natts rs \<Longrightarrow> reads_outside natts (written_by natts rs) rs"
proof (induction rs)
  case Nil
  then show ?case by simp
next
  case (Cons r rs)
  from Cons have "reads_outside natts (written_by natts rs) rs" by simp
  then have tail: "reads_outside natts (written_by natts (r # rs) - written_by natts [r]) rs"
    by (rule reads_outside_mono) (rule written_by_Cons(2))
  have "(j, oldid) \<notin> written_by natts (r # rs)"
    if c: "record_write natts r j rowid = copy_cell oldid" for j rowid oldid
  proof -
    from record_write_copy [OF c]
    have j: "j < natts" and row: "rowid = unat (log_rowid r)" and ne: "oldid \<noteq> rowid"
      by auto
    from ne row have "oldid \<noteq> unat (log_rowid r)" by simp
    then have "record_write natts r j oldid = keep_cell"
      by (simp add: record_write_def)
    moreover from Cons.prems j
    have "case record_write natts r j (unat (log_rowid r)) of
            copy_cell oldid \<Rightarrow> list_all (\<lambda>r'. record_write natts r' j oldid = keep_cell) rs
          | _ \<Rightarrow> True"
      by (simp add: list_all_iff)
    with c row have "\<forall>r'\<in>set rs. record_write natts r' j oldid = keep_cell"
      by (simp add: list_all_iff)
    ultimately show ?thesis by (auto simp add: written_by_def)
  qed
  with tail show ?case by auto
qed

lemma fold_cells_differ:
  assumes "reads_outside natts D rs"
    and "\<forall>j rowid. a j rowid \<noteq> b j rowid \<longrightarrow> (j, rowid) \<in> D"
  shows "fold (cells_after natts) rs a j rowid \<noteq> fold (cells_after natts) rs b j rowid
         \<longrightarrow> (j, rowid) \<in> D - written_by natts rs"
  using assms
proof (induction rs arbitrary: a b D j rowid)
  case Nil
  then show ?case by (simp add: written_by_def)
next
  case (Cons r rs)
  have step: "\<forall>j rowid. cells_after natts r a j rowid \<noteq> cells_after natts r b j rowid
                \<longrightarrow> (j, rowid) \<in> D - written_by natts [r]"
  proof (intro allI impI)
    fix j rowid
    assume d: "cells_after natts r a j rowid \<noteq> cells_after natts r b j rowid"
    show "(j, rowid) \<in> D - written_by natts [r]"
    proof (cases "record_write natts r j rowid")
      case keep_cell
      with d Cons.prems(2) show ?thesis by (auto simp add: cells_after_def written_by_def)
    next
      case (store_value v)
      with d show ?thesis by (simp add: cells_after_def)
    next
      case (copy_cell oldid)
      with Cons.prems(1) have "(j, oldid) \<notin> D" by auto
      with Cons.prems(2) have "a j oldid = b j oldid" by auto
      with d copy_cell show ?thesis by (simp add: cells_after_def)
    qed
  qed
  from Cons.prems(1) have "reads_outside natts (D - written_by natts [r]) rs" by simp
  from Cons.IH [OF this step, of j rowid] show ?case
    by (simp only: written_by_Cons(1) fold_simps comp_def)
qed

lemma fold_cells_not_written:
  "(j, rowid) \<notin> written_by natts rs
   \<Longrightarrow> fold (cells_after natts) rs a j rowid = a j rowid"
proof (induction rs arbitrary: a)
  case Nil
  then show ?case by simp
next
  case (Cons r rs)
  from Cons.prems have "record_write natts r j rowid = keep_cell"
    and "(j, rowid) \<notin> written_by natts rs"
    by (auto simp add: written_by_def)
  with Cons.IH [of "cells_after natts r a"] show ?case by (simp add: cells_after_def)
qed

lemma fold_cells_idem:
  assumes "copy_sources_kept natts rs"
  shows "fold (cells_after natts) rs (fold (cells_after natts) rs c) = fold (cells_after natts) rs c"
proof (rule ext, rule ext)
  fix j rowid
  have "\<forall>j rowid. fold (cells_after natts) rs c j rowid \<noteq> c j rowid
          \<longrightarrow> (j, rowid) \<in> written_by natts rs"
    using fold_cells_not_written by blast
  from fold_cells_differ [OF copy_sources_kept_reads_outside [OF assms] this, of j rowid]
  show "fold (cells_after natts) rs (fold (cells_after natts) rs c) j rowid
          = fold (cells_after natts) rs c j rowid"
    by auto
qed

lemma replay_main_walk:
  assumes "redo_walk fuel offs redo_mmap redo_mmap_sz (checkpoint_offset redo_mmap)
             = Some (rs, end_pos)"
  shows "uu_ApplyRedoLogMain fuel offs natts redo_mmap redo_mmap_sz base_mmap
           = Some (case replay_records offs natts rs base_mmap of
                     Inl err \<Rightarrow> Inl err
                   | Inr base_mmap' \<Rightarrow> Inr (end_pos, base_mmap'))"
  by (simp add: uu_ApplyRedoLogMain_def redo_loop_walk [OF assms] uu_rebuildRowIdMap_def
      uu_rebuildHashIndex_def split: sum.splits)

text \<open>
  C7, as stated: replaying a segment twice gives the state that replaying it once
  gives.  An UPDATE record copies the columns it does not update from the row
  \<^verbatim>\<open>oldid\<close> as the store holds it during replay.  In the segment below, the UPDATE
  of row 1 copies column 0 from row 0, and a later INSERT stores \<open>[7]\<close> into
  row 0, which held \<open>[1]\<close>: the first replay leaves \<open>[1]\<close> in row 1, the second
  \<open>[7]\<close>.
\<close>

theorem C7_second_replay_differs_counterexample:
  "(case uu_ApplyRedoLogMain (Suc (Suc (Suc 0))) \<lparr>off_common_data = 8, off_row_htup = 16\<rparr> 1
           \<lparr>checkpoint_offset = 24,
            redo_at = (\<lambda>pos. if pos = 24
               then \<lparr>log_type = GSTORE_TX_LOG__UPDATE, log_length = 64, log_rowid = 1,
                     htup_xmin = 100, htup_xmax = 0, htup_cid = 0, htup_ctid = 0,
                     htup_values = (\<lambda>j. None), update_mask = (\<lambda>j. True)\<rparr>
               else if pos = 88
               then \<lparr>log_type = GSTORE_TX_LOG__INSERT, log_length = 64, log_rowid = 0,
                     htup_xmin = 101, htup_xmax = 0, htup_cid = 0, htup_ctid = 0,
                     htup_values = (\<lambda>j. Some [7]), update_mask = (\<lambda>j. False)\<rparr>
               else \<lparr>log_type = GSTORE_TX_LOG__OTHER 0, log_length = 0, log_rowid = 0,
                     htup_xmin = 0, htup_xmax = 0, htup_cid = 0, htup_ctid = 0,
                     htup_values = (\<lambda>j. None), update_mask = (\<lambda>j. False)\<rparr>)\<rparr>
           4096
           \<lparr>bf_size = 8192,
            bf_schema = \<lparr>kds_nrooms = 4, kds_nitems = 1, kds_has_varlena = False,
               kds_usage = 0, kds_extra_hoffset = 0, kds_extra_hlength = 0,
               kds_attlen = (\<lambda>j. 4),
               kds_cells = (\<lambda>j rowid. if j = 0 \<and> rowid = 0 then Some [1] else None),
               kds_sysattr = (\<lambda>rowid. if rowid = 0 then \<lparr>xmin = 2, xmax = 0, cid = 0\<rparr>
                                        else \<lparr>xmin = 0, xmax = 0, cid = 0\<rparr>)\<rparr>,
            bf_rowid_map = (\<lambda>i. if i = 0 then 1 else 0), bf_hash_index = None\<rparr> of
      Some (Inr (pos1, base1)) \<Rightarrow>
        (case uu_ApplyRedoLogMain (Suc (Suc (Suc 0))) \<lparr>off_common_data = 8, off_row_htup = 16\<rparr> 1
           \<lparr>checkpoint_offset = 24,
            redo_at = (\<lambda>pos. if pos = 24
               then \<lparr>log_type = GSTORE_TX_LOG__UPDATE, log_length = 64, log_rowid = 1,
                     htup_xmin = 100, htup_xmax = 0, htup_cid = 0, htup_ctid = 0,
                     htup_values = (\<lambda>j. None), update_mask = (\<lambda>j. True)\<rparr>
               else if pos = 88
               then \<lparr>log_type = GSTORE_TX_LOG__INSERT, log_length = 64, log_rowid = 0,
                     htup_xmin = 101, htup_xmax = 0, htup_cid = 0, htup_ctid = 0,
                     htup_values = (\<lambda>j. Some [7]), update_mask = (\<lambda>j. False)\<rparr>
               else \<lparr>log_type = GSTORE_TX_LOG__OTHER 0, log_length = 0, log_rowid = 0,
                     htup_xmin = 0, htup_xmax = 0, htup_cid = 0, htup_ctid = 0,
                     htup_values = (\<lambda>j. None), update_mask = (\<lambda>j. False)\<rparr>)\<rparr>
           4096 base1 of
           Some (Inr (pos2, base2)) \<Rightarrow>
             kds_cells (bf_schema base1) 0 1 = Some [1]
             \<and> kds_cells (bf_schema base2) 0 1 = Some [7]
         | _ \<Rightarrow> False)
    | _ \<Rightarrow> False)"
  by (simp add: uu_ApplyRedoLogMain_def is_row_log_def expand_extra_def apply_row_log_def
      uu_ApplyRedoLogInsert_def uu_ApplyRedoLogUpdate_def store_column_def deformed_def
      update_column_def KDS_store_datum_column_def KDS_fetch_datum_column_def
      uu_rebuildHashIndex_def uu_rebuildRowIdMap_def InvalidTransactionId_def Let_def)

text \<open>
  C7, amended: when no record of the segment stores into a cell that an earlier
  UPDATE record of the segment copied from another row, a second replay from the same
  checkpoint ends at the same position and leaves every column and every system
  attribute of every row as the first replay left them; on a store without
  variable-length columns the second replay succeeds and returns the base file of
  the first unchanged.
\<close>

theorem C7_replay_idempotent_when_copy_sources_kept:
  assumes walk: "redo_walk fuel offs redo_mmap redo_mmap_sz (checkpoint_offset redo_mmap)
                   = Some (rs, end_pos)"
    and kept: "copy_sources_kept natts rs"
    and once: "uu_ApplyRedoLogMain fuel offs natts redo_mmap redo_mmap_sz base_mmap
                 = Some (Inr (pos1, base1))"
  shows "(fixed_length_only natts (bf_schema base_mmap)
            \<longrightarrow> uu_ApplyRedoLogMain fuel offs natts redo_mmap redo_mmap_sz base1
                  = Some (Inr (pos1, base1)))
         \<and> (\<forall>pos2 base2.
               uu_ApplyRedoLogMain fuel offs natts redo_mmap redo_mmap_sz base1
                 = Some (Inr (pos2, base2))
               \<longrightarrow> pos2 = pos1
                   \<and> kds_cells (bf_schema base2) = kds_cells (bf_schema base1)
                   \<and> kds_sysattr (bf_schema base2) = kds_sysattr (bf_schema base1)
                   \<and> kds_nitems (bf_schema base2) = kds_nitems (bf_schema base1))"
proof (intro conjI impI allI)
  from once have first: "replay_records offs natts rs base_mmap = Inr base1"
    and pos1: "pos1 = end_pos"
    by (auto simp add: replay_main_walk [OF walk] split: sum.splits)
  note rows1 = replay_records_rows [OF first]
  {
    assume fixed: "fixed_length_only natts (bf_schema base_mmap)"
    from first have base1: "base1 = base_mmap\<lparr>bf_schema := (bf_schema base_mmap)
            \<lparr>kds_cells := fold (cells_after natts) rs (kds_cells (bf_schema base_mmap)),
             kds_sysattr := fold sysattr_after rs (kds_sysattr (bf_schema base_mmap))\<rparr>\<rparr>"
      by (simp add: replay_records_fixed [OF fixed])
    from fixed have fixed1: "fixed_length_only natts (bf_schema base1)"
      by (simp add: base1 fixed_length_only_iff)
    have "replay_records offs natts rs base1 = Inr base1"
      by (subst replay_records_fixed [OF fixed1])
        (simp add: base1 fold_cells_idem [OF kept] fold_sysattr_idem)
    then show "uu_ApplyRedoLogMain fuel offs natts redo_mmap redo_mmap_sz base1
                 = Some (Inr (pos1, base1))"
      by (simp add: replay_main_walk [OF walk] pos1)
  }
  fix pos2 base2
  assume twice: "uu_ApplyRedoLogMain fuel offs natts redo_mmap redo_mmap_sz base1
                   = Some (Inr (pos2, base2))"
  then have second: "replay_records offs natts rs base1 = Inr base2"
    and pos2: "pos2 = end_pos"
    by (auto simp add: replay_main_walk [OF walk] split: sum.splits)
  note rows2 = replay_records_rows [OF second]
  from pos1 pos2 show "pos2 = pos1" by simp
  from rows1 rows2 show "kds_cells (bf_schema base2) = kds_cells (bf_schema base1)"
    by (simp add: fold_cells_idem [OF kept])
  from rows1 rows2 show "kds_sysattr (bf_schema base2) = kds_sysattr (bf_schema base1)"
    by (simp add: fold_sysattr_idem)
  from rows1 rows2 show "kds_nitems (bf_schema base2) = kds_nitems (bf_schema base1)"
    by simp
qed

theorem C7_replay_idempotent_witness:
  "\<exists>pos1 base1.
     uu_ApplyRedoLogMain (Suc (Suc (Suc 0))) \<lparr>off_common_data = 8, off_row_htup = 16\<rparr> 1
       \<lparr>checkpoint_offset = 24,
        redo_at = (\<lambda>pos. if pos = 24
           then \<lparr>log_type = GSTORE_TX_LOG__INSERT, log_length = 64, log_rowid = 0,
                 htup_xmin = 100, htup_xmax = 0, htup_cid = 0, htup_ctid = 0,
                 htup_values = (\<lambda>j. Some [7]), update_mask = (\<lambda>j. False)\<rparr>
           else if pos = 88
           then \<lparr>log_type = GSTORE_TX_LOG__UPDATE, log_length = 64, log_rowid = 1,
                 htup_xmin = 101, htup_xmax = 0, htup_cid = 0, htup_ctid = 0,
                 htup_values = (\<lambda>j. None), update_mask = (\<lambda>j. True)\<rparr>
           else \<lparr>log_type = GSTORE_TX_LOG__OTHER 0, log_length = 0, log_rowid = 0,
                 htup_xmin = 0, htup_xmax = 0, htup_cid = 0, htup_ctid = 0,
                 htup_values = (\<lambda>j. None), update_mask = (\<lambda>j. False)\<rparr>)\<rparr>
       4096
       \<lparr>bf_size = 8192,
        bf_schema = \<lparr>kds_nrooms = 4, kds_nitems = 0, kds_has_varlena = False,
           kds_usage = 0, kds_extra_hoffset = 0, kds_extra_hlength = 0,
           kds_attlen = (\<lambda>j. 4), kds_cells = (\<lambda>j rowid. None),
           kds_sysattr = (\<lambda>rowid. \<lparr>xmin = 0, xmax = 0, cid = 0\<rparr>)\<rparr>,
        bf_rowid_map = (\<lambda>i. 0), bf_hash_index = None\<rparr>
       = Some (Inr (pos1, base1))
     \<and> kds_cells (bf_schema base1) 0 1 = Some [7]
     \<and> uu_ApplyRedoLogMain (Suc (Suc (Suc 0))) \<lparr>off_common_data = 8, off_row_htup = 16\<rparr> 1
       \<lparr>checkpoint_offset = 24,
        redo_at = (\<lambda>pos. if pos = 24
           then \<lparr>log_type = GSTORE_TX_LOG__INSERT, log_length = 64, log_rowid = 0,
                 htup_xmin = 100, htup_xmax = 0, htup_cid = 0, htup_ctid = 0,
                 htup_values = (\<lambda>j. Some [7]), update_mask = (\<lambda>j. False)\<rparr>
           else if pos = 88
           then \<lparr>log_type = GSTORE_TX_LOG__UPDATE, log_length = 64, log_rowid = 1,
                 htup_xmin = 101, htup_xmax = 0, htup_cid = 0, htup_ctid = 0,
                 htup_values = (\<lambda>j. None), update_mask = (\<lambda>j. True)\<rparr>
           else \<lparr>log_type = GSTORE_TX_LOG__OTHER 0, log_length = 0, log_rowid = 0,
                 htup_xmin = 0, htup_xmax = 0, htup_cid = 0, htup_ctid = 0,
                 htup_values = (\<lambda>j. None), update_mask = (\<lambda>j. False)\<rparr>)\<rparr>
       4096 base1
       = Some (Inr (pos1, base1))"
proof -
  let ?ins = "\<lparr>log_type = GSTORE_TX_LOG__INSERT, log_length = 64, log_rowid = 0,
                 htup_xmin = 100, htup_xmax = 0, htup_cid = 0, htup_ctid = 0,
                 htup_values = (\<lambda>j. Some [7]), update_mask = (\<lambda>j. False)\<rparr>"
  let ?upd = "\<lparr>log_type = GSTORE_TX_LOG__UPDATE, log_length = 64, log_rowid = 1,
                 htup_xmin = 101, htup_xmax = 0, htup_cid = 0, htup_ctid = 0,
                 htup_values = (\<lambda>j. None), update_mask = (\<lambda>j. True)\<rparr>"
  let ?log = "\<lparr>checkpoint_offset = 24,
        redo_at = (\<lambda>pos. if pos = 24 then ?ins else if pos = 88 then ?upd
           else \<lparr>log_type = GSTORE_TX_LOG__OTHER 0, log_length = 0, log_rowid = 0,
                 htup_xmin = 0, htup_xmax = 0, htup_cid = 0, htup_ctid = 0,
                 htup_values = (\<lambda>j. None), update_mask = (\<lambda>j. False)\<rparr>)\<rparr>"
  let ?bf = "\<lparr>bf_size = 8192,
        bf_schema = \<lparr>kds_nrooms = 4, kds_nitems = 0, kds_has_varlena = False,
           kds_usage = 0, kds_extra_hoffset = 0, kds_extra_hlength = 0,
           kds_attlen = (\<lambda>j. 4), kds_cells = (\<lambda>j rowid. None),
           kds_sysattr = (\<lambda>rowid. \<lparr>xmin = 0, xmax = 0, cid = 0\<rparr>)\<rparr>,
        bf_rowid_map = (\<lambda>i. 0), bf_hash_index = None\<rparr>"
  let ?offs = "\<lparr>off_common_data = 8, off_row_htup = 16\<rparr>"
  have walk: "redo_walk (Suc (Suc (Suc 0))) ?offs ?log 4096 (checkpoint_offset ?log)
                = Some ([?ins, ?upd], 152)"
    by (simp add: is_row_log_def)
  have kept: "copy_sources_kept 1 [?ins, ?upd]"
    by (simp add: record_write_def)
  have fixed: "fixed_length_only 1 (bf_schema ?bf)"
    by (simp add: fixed_length_only_def)
  define base1 where "base1 = ?bf\<lparr>bf_schema := (bf_schema ?bf)
      \<lparr>kds_cells := fold (cells_after 1) [?ins, ?upd] (kds_cells (bf_schema ?bf)),
       kds_sysattr := fold sysattr_after [?ins, ?upd] (kds_sysattr (bf_schema ?bf))\<rparr>\<rparr>"
  have once: "uu_ApplyRedoLogMain (Suc (Suc (Suc 0))) ?offs 1 ?log 4096 ?bf = Some (Inr (152, base1))"
    using replay_main_walk [OF walk, of 1 ?bf] replay_records_fixed [OF fixed, of ?offs "[?ins, ?upd]"]
    unfolding base1_def
    by (simp only: sum.case)
  have cell: "kds_cells (bf_schema base1) 0 1 = Some [7]"
    unfolding base1_def
    by (simp add: cells_after_def record_write_def del: One_nat_def)
  from C7_replay_idempotent_when_copy_sources_kept [OF walk kept once] fixed
  have "uu_ApplyRedoLogMain (Suc (Suc (Suc 0))) ?offs 1 ?log 4096 base1 = Some (Inr (152, base1))"
    by blast
  with once cell show ?thesis by blast
qed

section \<open>Properties of the append to the redo log\<close>

lemma remap_fields:
  "uu_gstoreFdwRemapRedoLog st = Inr st1
   \<Longrightarrow> redo_log_limit st1 = redo_log_limit st \<and> redo_log_pos st1 = redo_log_pos st"
  by (auto simp add: uu_gstoreFdwRemapRedoLog_def split: option.splits)

lemma switch_fields:
  "uu_gstoreFdwSwitchRedoLog timestamp st = Some (Inr st2)
   \<Longrightarrow> redo_log_limit st2 = redo_log_limit st
       \<and> redo_log_pos st2 = MAXALIGN offsetof_redo_data"
  by (auto simp add: uu_gstoreFdwSwitchRedoLog_def switch_create_def switch_rename_def Let_def
      split: option.splits if_splits prod.splits)

text \<open>
  A record that does not fit into an empty log is never appended: every pass finds
  the new position beyond the limit and rotates again.
\<close>

lemma append_retry_oversized:
  assumes "redo_log_limit st < (MAXALIGN offsetof_redo_data + ri_length r_log) mod 2 ^ 64"
    and "redo_log_limit st < (redo_log_pos st + ri_length r_log) mod 2 ^ 64"
  shows "append_retry fuel timestamp r_log has_exclusive_lock st \<noteq> Some (Inr st')"
  using assms
proof (induction fuel arbitrary: st has_exclusive_lock)
  case 0
  then show ?case by simp
next
  case (Suc fuel)
  let ?m = "if desc_redo_mmap st = None \<or> desc_redo_mmap_revision st \<noteq> sstate_redo_mmap_revision st
            then uu_gstoreFdwRemapRedoLog st else Inr st"
  show ?case
  proof (cases ?m)
    case (Inl err)
    then show ?thesis by simp
  next
    case (Inr st1)
    then have f: "redo_log_limit st1 = redo_log_limit st \<and> redo_log_pos st1 = redo_log_pos st"
      using remap_fields by (auto split: if_splits)
    with Suc.prems have over: "redo_log_limit st1 < (redo_log_pos st1 + ri_length r_log) mod 2 ^ 64"
      and hdr: "redo_log_limit st1 < (MAXALIGN offsetof_redo_data + ri_length r_log) mod 2 ^ 64"
      by simp_all
    show ?thesis
    proof (cases has_exclusive_lock)
      case False
      let ?st = "st1\<lparr>redo_mmap_lock := redo_mmap_lock st1 @ [LWLockRelease, LWLockAcquire LW_EXCLUSIVE]\<rparr>"
      from over hdr have "append_retry fuel timestamp r_log True ?st \<noteq> Some (Inr st')"
        by (intro Suc.IH) simp_all
      with Inr over False show ?thesis by simp
    next
      case True
      show ?thesis
      proof (cases "uu_gstoreFdwSwitchRedoLog timestamp st1")
        case None
        with Inr over True show ?thesis by simp
      next
        case (Some res)
        show ?thesis
        proof (cases res)
          case (Inl err)
          with Some Inr over True show ?thesis by simp
        next
          case (Inr st2)
          from switch_fields [of timestamp st1 st2] Some Inr hdr
          have "append_retry fuel timestamp r_log True st2 \<noteq> Some (Inr st')"
            by (intro Suc.IH) simp_all
          with Some Inr \<open>?m = Inr st1\<close> over True show ?thesis by simp
        qed
      qed
    qed
  qed
qed

lemma MAXALIGN_header: "MAXALIGN offsetof_redo_data = 24"
  by (simp add: MAXALIGN_def offsetof_redo_data_def TYPEALIGN_def)

text \<open>
  An append from a position at which the record would pass the limit, of a record
  that fits into an empty log: the lock is escalated, the log is switched and the
  record lands behind the header of the new file.
\<close>

lemma append_rotates_when_over_limit:
  assumes over: "redo_log_limit st < (redo_log_pos st + ri_length r_log) mod 2 ^ 64"
    and fits: "MAXALIGN offsetof_redo_data + ri_length r_log \<le> redo_log_limit st"
    and lim: "redo_log_limit st < 2 ^ 63"
    and path: "fs_dir st redo_log_file = Some old_file"
    and fresh: "old_file \<noteq> fs_next st"
    and d1: "draw_until (\<lambda>r. fs_dir st (newfile r) = None) (randoms st) = Some (r, rs)"
    and d2: "draw_until (\<lambda>r'. fs_dir st (oldfile r') = None) rs = Some (r', rs')"
    and d3: "draw_until (\<lambda>revision. (of_nat revision :: 32 word) \<noteq> UINT_MAX
                \<and> of_nat revision \<noteq> sstate_redo_mmap_revision st) rs' = Some (v, rs'')"
  shows "\<exists>st'. append_retry (Suc (Suc (Suc fuel))) timestamp r_log False st = Some (Inr st')
      \<and> redo_mmap_lock st'
          = redo_mmap_lock st @ [LWLockRelease, LWLockAcquire LW_EXCLUSIVE, LWLockRelease]
      \<and> fs_dir st' redo_log_file = Some (fs_next st)
      \<and> fs_files st' (fs_next st)
          = \<lparr>lf_size = redo_log_limit st,
             lf_writes = [write_header GPUSTORE_REDOLOG_SIGNATURE timestamp
                            (MAXALIGN offsetof_redo_data),
                          write_record (MAXALIGN offsetof_redo_data) r_log]\<rparr>
      \<and> fs_dir st' (oldfile r') = Some old_file
      \<and> fs_files st' old_file = fs_files st old_file
      \<and> fs_dir st' (newfile r) = None
      \<and> redo_log_pos st' = MAXALIGN offsetof_redo_data + ri_length r_log
      \<and> sstate_redo_mmap_revision st' = of_nat v
      \<and> desc_redo_mmap st' = Some (fs_next st)
      \<and> desc_redo_mmap_revision st' = of_nat v"
proof -
  define sa where "sa =
    (if desc_redo_mmap st = None \<or> desc_redo_mmap_revision st \<noteq> sstate_redo_mmap_revision st
     then st\<lparr>desc_redo_mmap := Some old_file,
             desc_redo_mmap_revision := sstate_redo_mmap_revision st\<rparr>
     else st)"
  define sb where "sb = sa\<lparr>redo_mmap_lock := redo_mmap_lock sa
                              @ [LWLockRelease, LWLockAcquire LW_EXCLUSIVE]\<rparr>"
  define sc where "sc = (switch_rename old_file r r' rs' (switch_create timestamp r rs sb))
                          \<lparr>randoms := rs'', sstate_redo_mmap_revision := of_nat v,
                           redo_log_pos := MAXALIGN offsetof_redo_data\<rparr>"
  define sd where "sd = sc\<lparr>desc_redo_mmap := Some (fs_next st),
                           desc_redo_mmap_revision := of_nat v\<rparr>"
  define se where "se = sd\<lparr>redo_log_pos := MAXALIGN offsetof_redo_data + ri_length r_log,
        fs_files := (fs_files sd)(fs_next st := (fs_files sd (fs_next st))
           \<lparr>lf_writes := lf_writes (fs_files sd (fs_next st))
               @ [write_record (MAXALIGN offsetof_redo_data) r_log]\<rparr>),
        redo_mmap_lock := redo_mmap_lock sd @ [LWLockRelease]\<rparr>"
  have sa: "fs_dir sa = fs_dir st" "fs_files sa = fs_files st" "fs_next sa = fs_next st"
    "redo_log_limit sa = redo_log_limit st" "redo_log_pos sa = redo_log_pos st"
    "sstate_redo_mmap_revision sa = sstate_redo_mmap_revision st" "randoms sa = randoms st"
    "redo_mmap_lock sa = redo_mmap_lock st"
    "desc_redo_mmap sa \<noteq> None" "desc_redo_mmap_revision sa = sstate_redo_mmap_revision sa"
    by (auto simp add: sa_def)
  have p1: "append_retry (Suc (Suc (Suc fuel))) timestamp r_log False st
              = append_retry (Suc (Suc fuel)) timestamp r_log True sb"
  proof (cases "desc_redo_mmap st = None
                \<or> desc_redo_mmap_revision st \<noteq> sstate_redo_mmap_revision st")
    case True
    with over path show ?thesis
      by (subst append_retry.simps(2))
        (simp add: uu_gstoreFdwRemapRedoLog_def sb_def sa_def del: append_retry.simps)
  next
    case False
    then obtain f where "desc_redo_mmap st = Some f"
      and "desc_redo_mmap_revision st = sstate_redo_mmap_revision st"
      by auto
    with over show ?thesis
      by (subst append_retry.simps(2)) (simp add: sb_def sa_def del: append_retry.simps)
  qed
  have sb: "fs_dir sb = fs_dir st" "fs_files sb = fs_files st" "fs_next sb = fs_next st"
    "redo_log_limit sb = redo_log_limit st" "redo_log_pos sb = redo_log_pos st"
    "sstate_redo_mmap_revision sb = sstate_redo_mmap_revision st" "randoms sb = randoms st"
    "redo_mmap_lock sb = redo_mmap_lock st @ [LWLockRelease, LWLockAcquire LW_EXCLUSIVE]"
    "desc_redo_mmap sb \<noteq> None" "desc_redo_mmap_revision sb = sstate_redo_mmap_revision sb"
    using sa by (simp_all add: sb_def)
  from fits lim have lim0: "redo_log_limit st \<noteq> 0" "\<not> 2 ^ 63 \<le> redo_log_limit st"
    by (simp_all add: MAXALIGN_header)
  have sw: "uu_gstoreFdwSwitchRedoLog timestamp sb = Some (Inr sc)"
    using d1 d2 d3 path lim0
    by (simp add: uu_gstoreFdwSwitchRedoLog_def sb Let_def switch_create_def switch_rename_def
        sc_def)
  have p2: "append_retry (Suc (Suc fuel)) timestamp r_log True sb
              = append_retry (Suc fuel) timestamp r_log True sc"
  proof -
    from sb obtain f where "desc_redo_mmap sb = Some f" by auto
    with over sb sw show ?thesis
      by (subst append_retry.simps(2)) (simp del: append_retry.simps)
  qed
  have sc: "desc_redo_mmap sc = None" "fs_dir sc redo_log_file = Some (fs_next st)"
    "redo_log_limit sc = redo_log_limit st" "redo_log_pos sc = MAXALIGN offsetof_redo_data"
    "sstate_redo_mmap_revision sc = of_nat v"
    by (simp_all add: sc_def switch_create_def switch_rename_def sb)
  from fits lim have nowrap:
    "MAXALIGN offsetof_redo_data + ri_length r_log < 18446744073709551616"
    by simp
  have p3: "append_retry (Suc fuel) timestamp r_log True sc = Some (Inr se)"
    using fits
    by (subst append_retry.simps(2))
      (simp add: sc uu_gstoreFdwRemapRedoLog_def nowrap se_def sd_def del: append_retry.simps)
  have "redo_mmap_lock se
          = redo_mmap_lock st @ [LWLockRelease, LWLockAcquire LW_EXCLUSIVE, LWLockRelease]"
    and "fs_dir se redo_log_file = Some (fs_next st)"
    and "fs_files se (fs_next st)
          = \<lparr>lf_size = redo_log_limit st,
             lf_writes = [write_header GPUSTORE_REDOLOG_SIGNATURE timestamp
                            (MAXALIGN offsetof_redo_data),
                          write_record (MAXALIGN offsetof_redo_data) r_log]\<rparr>"
    and "fs_dir se (oldfile r') = Some old_file"
    and "fs_files se old_file = fs_files st old_file"
    and "fs_dir se (newfile r) = None"
    and "redo_log_pos se = MAXALIGN offsetof_redo_data + ri_length r_log"
    and "sstate_redo_mmap_revision se = of_nat v"
    and "desc_redo_mmap se = Some (fs_next st)"
    and "desc_redo_mmap_revision se = of_nat v"
    using fits fresh
    by (simp_all add: se_def sd_def sc_def switch_create_def switch_rename_def sb
        MAXALIGN_header max_def)
  with p1 p2 p3 show ?thesis by simp
qed

text \<open>
  C5: an append whose new position would pass the limit escalates the lock and
  switches the log, and the loop starts again so that the record lands in the new
  file.  The loop does not test whether the record fits into an empty log.  With
  the limit at its minimum of 128MB, a tuple of 134217712 bytes makes a record of
  134217728 bytes; behind the 24 bytes of the header of a fresh log it passes the
  limit again, so every pass switches the log once more: whatever the fuel and the
  random numbers, the append does not return.
\<close>

theorem C5_append_of_oversized_record_never_lands:
  "\<forall>fuel draws st'.
     gstoreFdwAppendRedoLog fuel \<lparr>off_common_data = 8, off_row_htup = 16\<rparr> 0
       GSTORE_TX_LOG__INSERT 0 100 (replicate 134217712 0) 0 0 None
       \<lparr>fs_dir = (\<lambda>p. if p = redo_log_file then Some 0 else None),
        fs_files = (\<lambda>f. \<lparr>lf_size = 134217728,
                           lf_writes = [write_header GPUSTORE_REDOLOG_SIGNATURE 0 24]\<rparr>),
        fs_next = 1, redo_log_limit = 134217728, redo_log_pos = 24,
        sstate_redo_mmap_revision = 1, desc_redo_mmap = Some 0,
        desc_redo_mmap_revision = 1, redo_mmap_lock = [], randoms = draws\<rparr>
     \<noteq> Some (Inr st')"
  unfolding gstoreFdwAppendRedoLog_def
  by (intro allI append_retry_oversized)
    (simp_all add: redo_record_length_def MAXALIGN_def TYPEALIGN_def offsetof_redo_data_def)

section \<open>Properties of the insert\<close>



end
